theory Spec2Isabelle
  imports Main "HOL-Library.AList"
begin

section \<open>Python strings\<close>

text \<open>
  A Python \<^verbatim>\<open>str\<close> is a sequence of Unicode code points; the program's literals are
  Japanese and Chinese text, so a string is a list of code points. ASCII literals are
  written with \<open>asc\<close>, the others by their code points.
\<close>

type_synonym ustr = "nat list"

definition asc :: "string \<Rightarrow> ustr" where
  "asc s = map of_char s"

text \<open>Truthiness of an optional string: neither \<^verbatim>\<open>None\<close> nor empty.\<close>

fun truthy :: "ustr option \<Rightarrow> bool" where
  "truthy None = False"
| "truthy (Some s) = (s \<noteq> [])"

text \<open>
  \<^verbatim>\<open>str.isspace\<close>, the class stripped by \<^verbatim>\<open>str.strip()\<close> and matched by \<^verbatim>\<open>\s\<close>.
\<close>

definition isspace :: "nat \<Rightarrow> bool" where
  "isspace c = ((9 \<le> c \<and> c \<le> 13) \<or> (28 \<le> c \<and> c \<le> 32) \<or> c = 133 \<or> c = 160
      \<or> c = 5760 \<or> (8192 \<le> c \<and> c \<le> 8202) \<or> c = 8232 \<or> c = 8233 \<or> c = 8239
      \<or> c = 8287 \<or> c = 12288)"

text \<open>
  The class matched by \<^verbatim>\<open>\d\<close> in a \<^verbatim>\<open>str\<close> pattern: the Unicode decimal digits
  (category Nd). They come in runs of ten; the table lists the first code point of each
  run, the ASCII digits first.
\<close>

definition digit_runs :: "nat list" where
  "digit_runs = [48, 1632, 1776, 1984, 2406, 2534, 2662, 2790, 2918, 3046, 3174, 3302,
     3430, 3558, 3664, 3792, 3872, 4160, 4240, 6112, 6160, 6470, 6608, 6784, 6800, 6992,
     7088, 7232, 7248, 42528, 43216, 43264, 43472, 43504, 43600, 44016, 65296, 66720,
     68912, 69734, 69872, 69942, 70096, 70384, 70736, 70864, 71248, 71360, 71472, 71904,
     72016, 72784, 73040, 73120, 92768, 92864, 93008, 120782, 120792, 120802, 120812,
     120822, 123200, 123632, 125264, 130032]"

definition isdigit :: "nat \<Rightarrow> bool" where
  "isdigit c = list_ex (\<lambda>b. b \<le> c \<and> c < b + 10) digit_runs"

definition strip :: "ustr \<Rightarrow> ustr" where
  "strip s = rev (dropWhile isspace (rev (dropWhile isspace s)))"

text \<open>\<^verbatim>\<open>sub in s\<close> and \<^verbatim>\<open>s.replace(old, "")\<close> (for a non-empty \<open>old\<close>).\<close>

fun starts_with :: "ustr \<Rightarrow> ustr \<Rightarrow> bool" where
  "starts_with [] s = True"
| "starts_with (p # ps) [] = False"
| "starts_with (p # ps) (c # cs) = (p = c \<and> starts_with ps cs)"

fun contains :: "ustr \<Rightarrow> ustr \<Rightarrow> bool" where
  "contains sub [] = (sub = [])"
| "contains sub (c # cs) = (starts_with sub (c # cs) \<or> contains sub cs)"

function remove_all :: "ustr \<Rightarrow> ustr \<Rightarrow> ustr" where
  "remove_all old [] = []"
| "remove_all old (c # cs) =
     (if old \<noteq> [] \<and> starts_with old (c # cs)
      then remove_all old (drop (length old) (c # cs))
      else c # remove_all old cs)"
  by pat_completeness auto
termination
  by (relation "measure (\<lambda>(old, s). length s)") auto

text \<open>Comparison of strings: lexicographic on code points.\<close>

fun str_less :: "ustr \<Rightarrow> ustr \<Rightarrow> bool" where
  "str_less [] [] = False"
| "str_less [] (y # ys) = True"
| "str_less (x # xs) [] = False"
| "str_less (x # xs) (y # ys) = (x < y \<or> (x = y \<and> str_less xs ys))"

section \<open>Regular expressions\<close>

text \<open>
  The patterns of the program use character classes, literals, sequence, alternation and
  greedy repetition of a class. \<open>rems r s\<close> lists, in the order in which the
  backtracking matcher of \<^verbatim>\<open>re\<close> tries them (first alternative first, longest
  repetition first), the remainders of \<open>s\<close> after a match of \<open>r\<close> at its start.
\<close>

datatype rx =
    Eps
  | Cls "nat \<Rightarrow> bool"
  | Seq rx rx
  | Alt rx rx
  | Rep "nat \<Rightarrow> bool" nat "nat option"

fun reps :: "(nat \<Rightarrow> bool) \<Rightarrow> nat \<Rightarrow> nat option \<Rightarrow> ustr \<Rightarrow> ustr list" where
  "reps p lo hi [] = (if lo = 0 then [[]] else [])"
| "reps p lo hi (c # cs) =
     (if p c \<and> hi \<noteq> Some 0 then reps p (lo - 1) (map_option (\<lambda>h. h - 1) hi) cs else [])
     @ (if lo = 0 then [c # cs] else [])"

fun rems :: "rx \<Rightarrow> ustr \<Rightarrow> ustr list" where
  "rems Eps s = [s]"
| "rems (Cls p) [] = []"
| "rems (Cls p) (c # cs) = (if p c then [cs] else [])"
| "rems (Seq a b) s = concat (map (rems b) (rems a s))"
| "rems (Alt a b) s = rems a s @ rems b s"
| "rems (Rep p lo hi) s = reps p lo hi s"

text \<open>
  \<^verbatim>\<open>re.search\<close> of the pattern \<open>pre(grp)post\<close>: the leftmost start at which the
  pattern matches, and there the first match in backtracking order; the result is the
  text of the group.
\<close>

definition group_at :: "rx \<Rightarrow> rx \<Rightarrow> rx \<Rightarrow> ustr \<Rightarrow> ustr list" where
  "group_at pre grp post s =
     concat (map (\<lambda>r1. concat (map (\<lambda>r2.
        if rems post r2 = [] then [] else [take (length r1 - length r2) r1]) (rems grp r1)))
       (rems pre s))"

fun search_group :: "rx \<Rightarrow> rx \<Rightarrow> rx \<Rightarrow> ustr \<Rightarrow> ustr option" where
  "search_group pre grp post [] =
     (case group_at pre grp post [] of g # gs \<Rightarrow> Some g | [] \<Rightarrow> None)"
| "search_group pre grp post (c # cs) =
     (case group_at pre grp post (c # cs) of g # gs \<Rightarrow> Some g
      | [] \<Rightarrow> search_group pre grp post cs)"

definition search :: "rx \<Rightarrow> ustr \<Rightarrow> ustr option" where
  "search r s = search_group Eps r Eps s"

definition found :: "rx \<Rightarrow> ustr \<Rightarrow> bool" where
  "found r s = (search r s \<noteq> None)"

definition one_of :: "ustr \<Rightarrow> rx" where
  "one_of cs = Cls (\<lambda>c. c \<in> set cs)"

fun lit :: "ustr \<Rightarrow> rx" where
  "lit [] = Eps"
| "lit (c # cs) = Seq (Cls (\<lambda>x. x = c)) (lit cs)"

definition rplus :: "(nat \<Rightarrow> bool) \<Rightarrow> rx" where
  "rplus p = Rep p 1 None"

definition rstar :: "(nat \<Rightarrow> bool) \<Rightarrow> rx" where
  "rstar p = Rep p 0 None"

definition ropt :: "(nat \<Rightarrow> bool) \<Rightarrow> rx" where
  "ropt p = Rep p 0 (Some 1)"

section \<open>Data model\<close>

text \<open>
  The dictionaries of the program have fixed keys, so each is a record. A key that may be
  missing, or a value that may be \<^verbatim>\<open>None\<close>, is an option. The entries of
  \<^verbatim>\<open>vacant_rooms\<close> have the keys type, rent, area and floor.
\<close>

record room =
  rtype :: ustr
  rent :: ustr
  area :: ustr
  floor :: ustr

datatype status = Success | Failed

datatype exn =
    FileNotFoundError
  | IsADirectoryError
  | NotADirectoryError
  | FileExistsError
  | JSONDecodeError
  | ValueError
  | RendererError ustr

record presult =
  url :: ustr
  property_name :: "ustr option"
  title :: ustr
  vacant_rooms :: "room list"
  total_vacant :: int
  phone_number :: ustr
  phone_source :: ustr
  transportation :: ustr
  transportation_source :: ustr
  address :: ustr
  address_source :: ustr
  management_years :: ustr
  management_years_source :: ustr
  status :: status
  error :: "ustr option"

text \<open>
  The predefined information of a target: the dictionary built from the command line or
  from a CSV row. A missing key is \<open>None\<close>.
\<close>

record pinfo =
  p_url :: "ustr option"
  p_name :: "ustr option"
  p_transportation :: "ustr option"
  p_address :: "ustr option"
  p_phone :: "ustr option"
  p_management_years :: "ustr option"

text \<open>The literals of the program.\<close>

definition unknown :: ustr where
  "unknown = [0x4e0d, 0x660e]"

definition unknown_property :: ustr where
  "unknown_property = [0x4e0d, 0x660e, 0x306a, 0x7269, 0x4ef6]"

definition predefined_src :: ustr where
  "predefined_src = [0x4e8b, 0x524d, 0x5b9a, 0x7fa9]"

definition scraped_src :: ustr where
  "scraped_src = [0x30a6, 0x30a7, 0x30d6, 0x30da, 0x30fc, 0x30b8, 0x6293, 0x53d6]"

definition unknown_zh :: ustr where
  "unknown_zh = [0x672a, 0x77e5]"

definition predefined_zh :: ustr where
  "predefined_zh = [0x9884, 0x5b9a, 0x4e49]"

definition page_load_failed :: ustr where
  "page_load_failed = [0x30da, 0x30fc, 0x30b8, 0x8aad, 0x307f, 0x8fbc, 0x307f, 0x5931, 0x6557]"

definition max_retries_exceeded :: ustr where
  "max_retries_exceeded = asc ''Max retries exceeded''"

section \<open>Snapshot files\<close>

text \<open>
  The file system is a list of paths with what each names, in the order in which a
  directory listing returns them. The content of a file is what
  \<^verbatim>\<open>save_results\<close> writes: a JSON snapshot, a CSV or a text export; \<open>Raw\<close> is any
  other content. \<^verbatim>\<open>datetime.now()\<close> is read twice by a save; both readings are
  inputs.
\<close>

type_synonym path = ustr

record snapshot =
  timestamp :: ustr
  total_checked :: int
  total_vacant_rooms :: int
  results :: "presult list"

datatype content =
    Json_doc snapshot
  | Csv_doc "presult list"
  | Txt_doc "presult list"
  | Raw ustr

datatype node = File content | Dir

type_synonym fs = "(path \<times> node) list"

definition slash :: nat where
  "slash = 47"

definition path_exists :: "fs \<Rightarrow> path \<Rightarrow> bool" where
  "path_exists fs p = (map_of fs p \<noteq> None)"

definition path_join :: "path \<Rightarrow> ustr \<Rightarrow> path" where
  "path_join d n = d @ [slash] @ n"

definition basename :: "path \<Rightarrow> ustr" where
  "basename p = rev (takeWhile (\<lambda>c. c \<noteq> slash) (rev p))"

definition dirname :: "path \<Rightarrow> path" where
  "dirname p = rev (drop 1 (dropWhile (\<lambda>c. c \<noteq> slash) (rev p)))"

definition ends_with :: "ustr \<Rightarrow> ustr \<Rightarrow> bool" where
  "ends_with suf s = starts_with (rev suf) (rev s)"

definition results_prefix :: ustr where
  "results_prefix = asc ''ur_net_results_''"

definition json_suffix :: ustr where
  "json_suffix = asc ''.json''"

text \<open>
  \<^verbatim>\<open>fnmatch\<close> of a name against \<^verbatim>\<open>ur_net_results_*.json\<close>: the star matches any
  text, also none.
\<close>

definition matches_pattern :: "ustr \<Rightarrow> bool" where
  "matches_pattern n =
     (starts_with results_prefix n \<and> ends_with json_suffix (drop (length results_prefix) n))"

text \<open>
  \<^verbatim>\<open>glob.glob(os.path.join(results_dir, "ur_net_results_*.json"))\<close>, for a
  \<open>results_dir\<close> free of wildcard characters: the entries of the directory whose name
  matches, as joined paths, in listing order.
\<close>

definition glob_results :: "fs \<Rightarrow> path \<Rightarrow> path list" where
  "glob_results fs d =
     (if map_of fs d = Some Dir
      then filter (\<lambda>p. starts_with (d @ [slash]) p
                       \<and> slash \<notin> set (drop (length d + 1) p)
                       \<and> matches_pattern (drop (length d + 1) p)) (map fst fs)
      else [])"

definition zero_stamp :: ustr where
  "zero_stamp = asc ''00000000_000000''"

definition stamp_rx :: rx where
  "stamp_rx = Seq (Rep isdigit 8 (Some 8)) (Seq (lit (asc ''_'')) (Rep isdigit 6 (Some 6)))"

definition extract_timestamp :: "path \<Rightarrow> ustr" where
  "extract_timestamp filepath =
     (case search_group (lit results_prefix) stamp_rx (lit json_suffix) (basename filepath) of
        Some m \<Rightarrow> m
      | None \<Rightarrow> zero_stamp)"

text \<open>\<^verbatim>\<open>max(xs, key=k)\<close> keeps the first of the greatest elements.\<close>

fun max_by :: "('a \<Rightarrow> ustr) \<Rightarrow> 'a \<Rightarrow> 'a list \<Rightarrow> 'a" where
  "max_by k best [] = best"
| "max_by k best (x # xs) = (if str_less (k best) (k x) then max_by k x xs else max_by k best xs)"

definition find_latest_result_file :: "fs \<Rightarrow> path \<Rightarrow> path option" where
  "find_latest_result_file fs results_dir =
     (if \<not> path_exists fs results_dir then None
      else (case glob_results fs results_dir of
              [] \<Rightarrow> None
            | f # fs' \<Rightarrow> Some (max_by extract_timestamp f fs')))"

section \<open>Comparing a run with the previous snapshot\<close>

text \<open>
  \<^verbatim>\<open>open\<close> and \<^verbatim>\<open>json.load\<close> of the previous file, then
  \<^verbatim>\<open>previous_data.get('results', [])\<close>. The JSON documents of the model are those
  \<^verbatim>\<open>save_results\<close> writes, whose entries carry every key; any other content of the
  file fails to decode.
\<close>

definition load_previous :: "fs \<Rightarrow> path \<Rightarrow> exn + presult list" where
  "load_previous fs p =
     (case map_of fs p of
        None \<Rightarrow> Inl FileNotFoundError
      | Some Dir \<Rightarrow> Inl IsADirectoryError
      | Some (File (Json_doc s)) \<Rightarrow> Inr (results s)
      | Some (File (Csv_doc rs)) \<Rightarrow> Inl JSONDecodeError
      | Some (File (Txt_doc rs)) \<Rightarrow> Inl JSONDecodeError
      | Some (File (Raw t)) \<Rightarrow> Inl JSONDecodeError)"

record vacant_entry =
  ve_property_name :: "ustr option"
  ve_total_vacant :: int
  ve_vacant_rooms :: "room list"

text \<open>
  The dictionary from url to entry built from the results with status success and a
  positive count: a later result of the same url replaces the entry and keeps its place.
\<close>

definition entry_of :: "presult \<Rightarrow> vacant_entry" where
  "entry_of r =
     \<lparr>ve_property_name = property_name r,
      ve_total_vacant = total_vacant r,
      ve_vacant_rooms = vacant_rooms r\<rparr>"

definition vacant_properties :: "presult list \<Rightarrow> (ustr \<times> vacant_entry) list" where
  "vacant_properties rs =
     fold (\<lambda>r d. if status r = Success \<and> total_vacant r > 0
                  then AList.update (url r) (entry_of r) d
                  else d) rs []"

text \<open>The dictionary as a mapping.\<close>

definition vacant_map :: "presult list \<Rightarrow> ustr \<Rightarrow> vacant_entry option" where
  "vacant_map rs = map_of (vacant_properties rs)"

datatype change_type = New | Increased

record new_property =
  np_url :: ustr
  np_property_name :: "ustr option"
  np_total_vacant :: int
  np_vacant_rooms :: "room list"
  np_change_type :: change_type

record counts =
  previous_vacant_count :: nat
  current_vacant_count :: nat
  new_vacant_properties :: nat
  increased_vacant_properties :: nat
  total_new_changes :: nat

record comparison_summary =
  cs_counts :: "counts option"
  cs_error :: "exn option"

record comparison_result =
  has_new_properties :: bool
  new_properties :: "new_property list"
  previous_file :: path
  comparison_summary :: comparison_summary

text \<open>
  \<^verbatim>\<open>new_vacant_urls\<close> is a Python set, and the language does not fix the order in which
  \<^verbatim>\<open>list(new_vacant_urls)\<close> enumerates it: the order is that of \<open>rank\<close>, an
  arbitrary ranking of the urls.
\<close>

definition new_vacant_urls ::
  "(ustr \<Rightarrow> nat) \<Rightarrow> (ustr \<times> vacant_entry) list \<Rightarrow> (ustr \<times> vacant_entry) list \<Rightarrow> ustr list" where
  "new_vacant_urls rank cur prev =
     sort_key rank (filter (\<lambda>u. map_of prev u = None) (map fst cur))"

definition increased_vacant_urls ::
  "(ustr \<times> vacant_entry) list \<Rightarrow> (ustr \<times> vacant_entry) list \<Rightarrow> ustr list" where
  "increased_vacant_urls cur prev =
     filter (\<lambda>u. case map_of prev u of
                    None \<Rightarrow> False
                  | Some pe \<Rightarrow> (case map_of cur u of
                                  None \<Rightarrow> False
                                | Some ce \<Rightarrow> ve_total_vacant ce > ve_total_vacant pe))
       (map fst cur)"

definition collect_new ::
  "(ustr \<times> vacant_entry) list \<Rightarrow> ustr list \<Rightarrow> ustr list \<Rightarrow> new_property list" where
  "collect_new cur new_urls all_new_urls =
     concat (map (\<lambda>u. case map_of cur u of
                         None \<Rightarrow> []
                       | Some ce \<Rightarrow>
                           [\<lparr>np_url = u,
                             np_property_name = ve_property_name ce,
                             np_total_vacant = ve_total_vacant ce,
                             np_vacant_rooms = ve_vacant_rooms ce,
                             np_change_type = (if u \<in> set new_urls then New else Increased)\<rparr>])
       all_new_urls)"

definition compare_results ::
  "(ustr \<Rightarrow> nat) \<Rightarrow> fs \<Rightarrow> presult list \<Rightarrow> path \<Rightarrow> comparison_result" where
  "compare_results rank fs current_results prev_file =
     (case load_previous fs prev_file of
        Inl e \<Rightarrow>
          \<lparr>has_new_properties = True, new_properties = [], previous_file = prev_file,
           comparison_summary = \<lparr>cs_counts = None, cs_error = Some e\<rparr>\<rparr>
      | Inr previous_results \<Rightarrow>
          (let cur = vacant_properties current_results;
               prev = vacant_properties previous_results;
               new_urls = new_vacant_urls rank cur prev;
               increased = increased_vacant_urls cur prev;
               props = collect_new cur new_urls (new_urls @ increased)
           in \<lparr>has_new_properties = (length props > 0), new_properties = props,
                previous_file = prev_file,
                comparison_summary =
                  \<lparr>cs_counts = Some \<lparr>previous_vacant_count = length prev,
                                      current_vacant_count = length cur,
                                      new_vacant_properties = length new_urls,
                                      increased_vacant_properties = length increased,
                                      total_new_changes = length props\<rparr>,
                   cs_error = None\<rparr>\<rparr>))"

datatype reason = First_run | New_detected nat | No_new

record decision_info =
  should_send :: bool
  reason :: reason
  is_first_run :: bool
  comparison :: "comparison_result option"

definition should_send_email ::
  "(ustr \<Rightarrow> nat) \<Rightarrow> fs \<Rightarrow> presult list \<Rightarrow> path \<Rightarrow> decision_info" where
  "should_send_email rank fs rs results_dir =
     (let latest_file = find_latest_result_file fs results_dir in
      if \<not> truthy latest_file
      then \<lparr>should_send = True, reason = First_run, is_first_run = True, comparison = None\<rparr>
      else (let c = compare_results rank fs rs (the latest_file) in
            if has_new_properties c
            then \<lparr>should_send = True, reason = New_detected (length (new_properties c)),
                  is_first_run = False, comparison = Some c\<rparr>
            else \<lparr>should_send = False, reason = No_new, is_first_run = False,
                  comparison = Some c\<rparr>))"

section \<open>Saving a run\<close>

datatype fmt = Json | Csv | Txt | Other_fmt ustr

fun fmt_name :: "fmt \<Rightarrow> ustr" where
  "fmt_name Json = asc ''json''"
| "fmt_name Csv = asc ''csv''"
| "fmt_name Txt = asc ''txt''"
| "fmt_name (Other_fmt s) = s"

record clock =
  now_stamp :: ustr
  now_iso :: ustr

text \<open>\<^verbatim>\<open>os.mkdir\<close> under \<^verbatim>\<open>exist_ok=True\<close>; the empty path is the current directory.\<close>

definition mkdir_exist_ok :: "fs \<Rightarrow> path \<Rightarrow> exn + fs" where
  "mkdir_exist_ok fs name =
     (case map_of fs name of
        Some Dir \<Rightarrow> Inr fs
      | Some (File c) \<Rightarrow> Inl FileExistsError
      | None \<Rightarrow>
          if dirname name = [] \<or> map_of fs (dirname name) = Some Dir
          then Inr (fs @ [(name, Dir)])
          else if path_exists fs (dirname name) then Inl NotADirectoryError
          else Inl FileNotFoundError)"

function makedirs :: "fs \<Rightarrow> path \<Rightarrow> exn + fs" where
  "makedirs fs name =
     (if dirname name \<noteq> [] \<and> basename name \<noteq> [] \<and> \<not> path_exists fs (dirname name)
      then (case makedirs fs (dirname name) of
              Inl FileExistsError \<Rightarrow> mkdir_exist_ok fs name
            | Inl e \<Rightarrow> Inl e
            | Inr fs' \<Rightarrow> mkdir_exist_ok fs' name)
      else mkdir_exist_ok fs name)"
  by pat_completeness auto
termination
proof (relation "measure (\<lambda>(fs, name). length name)")
  show "wf (measure (\<lambda>(fs, name). length name))" by simp
next
  fix fs :: fs and name :: path
  assume "dirname name \<noteq> [] \<and> basename name \<noteq> [] \<and> \<not> path_exists fs (dirname name)"
  then have ne: "name \<noteq> []" by (auto simp: dirname_def)
  have "length (dropWhile (\<lambda>c. c \<noteq> slash) (rev name)) \<le> length name"
    using length_dropWhile_le [of "\<lambda>c. c \<noteq> slash" "rev name"] by simp
  with ne have "length (dirname name) < length name"
    by (cases name) (simp_all add: dirname_def)
  then show "((fs, dirname name), (fs, name)) \<in> measure (\<lambda>(fs, name). length name)"
    by simp
qed

declare makedirs.simps [simp del]

text \<open>\<^verbatim>\<open>open(path, 'w')\<close> followed by writing the whole content.\<close>

definition write_file :: "fs \<Rightarrow> path \<Rightarrow> content \<Rightarrow> exn + fs" where
  "write_file fs p c =
     (case map_of fs p of
        Some Dir \<Rightarrow> Inl IsADirectoryError
      | _ \<Rightarrow>
          if dirname p = [] \<or> map_of fs (dirname p) = Some Dir
          then Inr (AList.update p (File c) fs)
          else if path_exists fs (dirname p) then Inl NotADirectoryError
          else Inl FileNotFoundError)"

text \<open>
  The rows \<^verbatim>\<open>csv.DictWriter\<close> writes: the field names are the keys of the first
  result, and a later result with a key outside them (the \<^verbatim>\<open>error\<close> key of a failed
  result, after a first result without it) raises, which ends the writing.
\<close>

definition csv_rows :: "presult list \<Rightarrow> presult list" where
  "csv_rows rs =
     (case rs of
        [] \<Rightarrow> []
      | r # rs' \<Rightarrow> if error r = None then takeWhile (\<lambda>x. error x = None) rs else rs)"

definition save_content :: "clock \<Rightarrow> presult list \<Rightarrow> fmt \<Rightarrow> content option" where
  "save_content clk rs output_format =
     (case output_format of
        Json \<Rightarrow> Some (Json_doc
                  \<lparr>timestamp = now_iso clk,
                   total_checked = int (length rs),
                   total_vacant_rooms =
                     sum_list (map total_vacant (filter (\<lambda>r. status r = Success) rs)),
                   results = rs\<rparr>)
      | Csv \<Rightarrow> Some (Csv_doc (csv_rows rs))
      | Txt \<Rightarrow> Some (Txt_doc rs)
      | Other_fmt s \<Rightarrow> None)"

definition default_results_dir :: "fs \<Rightarrow> path" where
  "default_results_dir fs =
     (if path_exists fs (asc ''/app'') then asc ''/app/results'' else asc ''results'')"

definition snapshot_name :: "clock \<Rightarrow> fmt \<Rightarrow> ustr" where
  "snapshot_name clk output_format =
     results_prefix @ now_stamp clk @ asc ''.'' @ fmt_name output_format"

text \<open>
  \<^verbatim>\<open>save_results\<close>: the directory is created outside the \<^verbatim>\<open>try\<close>, so its failure
  is the result \<open>Inl\<close>; a failure of the writing is caught and leaves the files as they
  were.
\<close>

definition save_to :: "clock \<Rightarrow> fs \<Rightarrow> presult list \<Rightarrow> fmt \<Rightarrow> path \<Rightarrow> fs" where
  "save_to clk fs rs output_format output_path =
     (case save_content clk rs output_format of
        None \<Rightarrow> fs
      | Some c \<Rightarrow> (case write_file fs output_path c of Inl e \<Rightarrow> fs | Inr fs' \<Rightarrow> fs'))"

definition save_results ::
  "clock \<Rightarrow> fs \<Rightarrow> presult list \<Rightarrow> fmt \<Rightarrow> path option \<Rightarrow> exn + fs" where
  "save_results clk fs rs output_format output_path =
     (if \<not> truthy output_path
      then (case makedirs fs (default_results_dir fs) of
              Inl e \<Rightarrow> Inl e
            | Inr fs' \<Rightarrow>
                Inr (save_to clk fs' rs output_format
                       (path_join (default_results_dir fs) (snapshot_name clk output_format))))
      else Inr (save_to clk fs rs output_format (the output_path)))"

section \<open>The rendered page\<close>

text \<open>
  The renderer is outside the program. A page, a row and an element are what their
  queries answer; every call may raise. The page does not change while it is read.
  Selectors are strings; those with a quotation mark or Japanese text are written by
  their code points.
\<close>

datatype elem = Elem (text_content: "exn + ustr option") (href: "exn + ustr option")

datatype row = Row (row_text: "exn + ustr option") (row_query: "ustr \<Rightarrow> exn + elem option")

record page =
  query_selector :: "ustr \<Rightarrow> exn + elem option"
  query_selector_all :: "ustr \<Rightarrow> exn + row list"
  page_title :: "exn + ustr"
  body_text :: "exn + ustr option"

definition room_table_selectors :: "ustr list" where
  "room_table_selectors =
     [asc ''.module_tables_room table tbody tr.js-log-item'',
      asc ''table tbody tr.js-log-item'',
      asc ''.rep_room'',
      asc ''table tbody tr'',
      asc ''tr'']"

definition price_selectors :: "ustr list" where
  "price_selectors =
     [asc ''span.rep_room-price'',
      asc ''.rep_room-price'',
      asc ''td:nth-child(3) span.rep_room-price'',
      asc ''td:nth-child(3)'',
      asc ''td:nth-child(4)'']"

definition type_selectors :: "ustr list" where
  "type_selectors =
     [asc ''td:nth-child(4)'',
      asc ''td:nth-child(3)'',
      asc ''td:nth-child(5)'',
      asc ''.rep_room-type'',
      asc ''td.rep_room-type'']"

definition area_selectors :: "ustr list" where
  "area_selectors =
     [asc ''.rep_room-floor'',
      asc ''td.rep_room-floor'',
      asc ''td:nth-child(5)'',
      asc ''td:nth-child(6)'']"

definition floor_selectors :: "ustr list" where
  "floor_selectors =
     [asc ''.rep_room-kai'',
      asc ''td.rep_room-kai'',
      asc ''td:nth-child(6)'',
      asc ''td:nth-child(7)'',
      asc ''td:last-child'']"

definition transportation_selectors :: "ustr list" where
  "transportation_selectors =
     [[100, 116, 58, 99, 111, 110, 116, 97, 105, 110, 115, 40, 34, 20132, 36890, 34, 41, 32, 43, 32, 100, 100],
      asc ''.access-info'',
      asc ''.transportation'',
      [116, 100, 58, 99, 111, 110, 116, 97, 105, 110, 115, 40, 34, 20132, 36890, 34, 41, 32, 43, 32, 116, 100],
      [116, 104, 58, 99, 111, 110, 116, 97, 105, 110, 115, 40, 34, 20132, 36890, 34, 41, 32, 43, 32, 116, 100],
      asc ''.property-access'']"

definition address_selectors :: "ustr list" where
  "address_selectors =
     [[100, 116, 58, 99, 111, 110, 116, 97, 105, 110, 115, 40, 34, 25152, 22312, 22320, 34, 41, 32, 43, 32, 100, 100],
      [100, 116, 58, 99, 111, 110, 116, 97, 105, 110, 115, 40, 34, 20303, 25152, 34, 41, 32, 43, 32, 100, 100],
      asc ''.address'',
      asc ''.location'',
      [116, 100, 58, 99, 111, 110, 116, 97, 105, 110, 115, 40, 34, 25152, 22312, 22320, 34, 41, 32, 43, 32, 116, 100],
      [116, 104, 58, 99, 111, 110, 116, 97, 105, 110, 115, 40, 34, 20303, 25152, 34, 41, 32, 43, 32, 116, 100],
      asc ''.property-address'']"

definition phone_selectors :: "ustr list" where
  "phone_selectors =
     [[100, 116, 58, 99, 111, 110, 116, 97, 105, 110, 115, 40, 34, 38651, 35441, 34, 41, 32, 43, 32, 100, 100],
      [100, 116, 58, 99, 111, 110, 116, 97, 105, 110, 115, 40, 34, 84, 69, 76, 34, 41, 32, 43, 32, 100, 100],
      asc ''.phone'',
      asc ''.tel'',
      [116, 100, 58, 99, 111, 110, 116, 97, 105, 110, 115, 40, 34, 38651, 35441, 34, 41, 32, 43, 32, 116, 100],
      [116, 104, 58, 99, 111, 110, 116, 97, 105, 110, 115, 40, 34, 84, 69, 76, 34, 41, 32, 43, 32, 116, 100],
      asc ''.contact-phone'']"

definition management_selectors :: "ustr list" where
  "management_selectors =
     [[100, 116, 58, 99, 111, 110, 116, 97, 105, 110, 115, 40, 34, 31649, 29702, 24180, 25968, 34, 41, 32, 43, 32, 100, 100],
      [100, 116, 58, 99, 111, 110, 116, 97, 105, 110, 115, 40, 34, 31689, 24180, 34, 41, 32, 43, 32, 100, 100],
      asc ''.management-years'',
      asc ''.built-year'',
      [116, 100, 58, 99, 111, 110, 116, 97, 105, 110, 115, 40, 34, 31649, 29702, 24180, 25968, 34, 41, 32, 43, 32, 116, 100],
      [116, 104, 58, 99, 111, 110, 116, 97, 105, 110, 115, 40, 34, 31689, 24180, 34, 41, 32, 43, 32, 116, 100],
      asc ''.property-age'']"

definition header_labels :: "ustr list" where
  "header_labels =
     [[38291, 21462, 22259],
      [37096, 23627, 21517],
      [23478, 36035],
      [38291, 21462, 12426],
      [24202, 38754, 31309],
      [38542, 25968]]"

definition title_suffix :: ustr where
  "title_suffix =
     [65288, 26481, 20140, 37117, 65289, 12398,
      36035, 36024, 29289, 20214, 65372, 85, 82, 36035, 36024, 20303, 23429]"

definition detail_label :: ustr where
  "detail_label = [35443, 32048]"

section \<open>The patterns\<close>

definition price_rx :: rx where
  "price_rx = Seq (Rep isdigit 1 (Some 3)) (Seq (one_of [44, 65292]) (Rep isdigit 3 (Some 3)))"

definition price_yen_rx :: rx where
  "price_yen_rx = Seq price_rx (ropt (\<lambda>c. c \<in> set [20870, 26085, 20803]))"

definition room_no_rx :: rx where
  "room_no_rx = Seq (rplus isdigit) (one_of [21495, 26847, 23460])"

definition ldk_rx :: rx where
  "ldk_rx = Seq (rplus isdigit) (one_of (asc ''LDK''))"

definition type_rx :: rx where
  "type_rx = Seq (rplus isdigit) (rplus (\<lambda>c. c \<in> set (asc ''SLDK'')))"

definition area_rx :: rx where
  "area_rx = Seq (rplus isdigit) (one_of [13217, 24179, 26041, 31859])"

definition floor_rx :: rx where
  "floor_rx = Seq (rplus isdigit) (one_of [38542])"

definition floor_full_rx :: rx where
  "floor_full_rx =
     Seq (rplus isdigit) (Seq (one_of [38542]) (Seq (ropt (\<lambda>c. c = 65295))
       (Seq (rstar isdigit) (ropt (\<lambda>c. c = 38542)))))"

definition transport_rx :: rx where
  "transport_rx =
     Seq (rstar (\<lambda>c. c \<noteq> 10)) (Seq (Alt (one_of [39365]) (one_of [32218]))
       (rstar (\<lambda>c. c \<noteq> 10)))"

definition phone_label_rx :: rx where
  "phone_label_rx =
     Seq (Alt (lit [38651, 35441]) (Alt (lit (asc ''TEL'')) (Alt (lit (asc ''Tel'')) (lit (asc ''tel'')))))
       (rstar (\<lambda>c. c = 58 \<or> c = 65306 \<or> isspace c))"

definition phone_digits_rx :: rx where
  "phone_digits_rx = rplus (\<lambda>c. (48 \<le> c \<and> c \<le> 57) \<or> c = 45 \<or> c = 40 \<or> c = 41)"

section \<open>Extraction\<close>

text \<open>The truthiness of the dictionary of predefined information.\<close>

fun info_truthy :: "pinfo option \<Rightarrow> bool" where
  "info_truthy None = False"
| "info_truthy (Some p) =
     (p_url p \<noteq> None \<or> p_name p \<noteq> None \<or> p_transportation p \<noteq> None
      \<or> p_address p \<noteq> None \<or> p_phone p \<noteq> None \<or> p_management_years p \<noteq> None)"

text \<open>\<^verbatim>\<open>predefined_info.get(key, default) if predefined_info else default\<close>.\<close>

definition info_get :: "pinfo option \<Rightarrow> (pinfo \<Rightarrow> ustr option) \<Rightarrow> ustr \<Rightarrow> ustr" where
  "info_get predefined_info key dflt =
     (if info_truthy predefined_info
      then (case key (the predefined_info) of Some v \<Rightarrow> v | None \<Rightarrow> dflt)
      else dflt)"

text \<open>\<^verbatim>\<open>src if predefined_info and predefined_info.get(key) else dflt\<close>.\<close>

definition info_source :: "pinfo option \<Rightarrow> (pinfo \<Rightarrow> ustr option) \<Rightarrow> ustr \<Rightarrow> ustr \<Rightarrow> ustr" where
  "info_source predefined_info key src dflt =
     (if info_truthy predefined_info \<and> truthy (key (the predefined_info)) then src else dflt)"

text \<open>
  The dictionary of a failed target. The program writes it out three times, with the
  wording of the place: the name given when there is no predefined information, the
  texts for an unknown value and for a predefined source, and the error.
\<close>

definition failed_result ::
  "ustr \<Rightarrow> pinfo option \<Rightarrow> ustr \<Rightarrow> ustr \<Rightarrow> ustr \<Rightarrow> ustr \<Rightarrow> presult" where
  "failed_result u predefined_info no_name unk pre err =
     \<lparr>url = u,
      property_name =
        (if info_truthy predefined_info then p_name (the predefined_info) else Some no_name),
      title = [],
      vacant_rooms = [],
      total_vacant = 0,
      phone_number = info_get predefined_info p_phone unk,
      phone_source = info_source predefined_info p_phone pre unk,
      transportation = info_get predefined_info p_transportation unk,
      transportation_source = info_source predefined_info p_transportation pre unk,
      address = info_get predefined_info p_address unk,
      address_source = info_source predefined_info p_address pre unk,
      management_years = info_get predefined_info p_management_years unk,
      management_years_source = info_source predefined_info p_management_years pre unk,
      status = Failed,
      error = Some err\<rparr>"

text \<open>The property name: two selectors, then the page title when a query raised.\<close>

definition name_of_elem :: "elem \<Rightarrow> exn + ustr" where
  "name_of_elem el =
     (case text_content el of
        Inl e \<Rightarrow> Inl e
      | Inr name \<Rightarrow> Inr (if truthy name then strip (the name) else unknown_property))"

definition name_from_selectors :: "page \<Rightarrow> pinfo option \<Rightarrow> exn + ustr" where
  "name_from_selectors pg predefined_info =
     (case query_selector pg (asc ''h1.property-name'') of
        Inl e \<Rightarrow> Inl e
      | Inr (Some el) \<Rightarrow> name_of_elem el
      | Inr None \<Rightarrow>
          (case query_selector pg (asc ''h1, .property-title, .building-name'') of
             Inl e \<Rightarrow> Inl e
           | Inr (Some el) \<Rightarrow> name_of_elem el
           | Inr None \<Rightarrow> Inr (info_get predefined_info p_name unknown_property)))"

definition extract_name :: "page \<Rightarrow> pinfo option \<Rightarrow> exn + ustr" where
  "extract_name pg predefined_info =
     (case name_from_selectors pg predefined_info of
        Inr n \<Rightarrow> Inr n
      | Inl e \<Rightarrow>
          (case page_title pg of
             Inl e' \<Rightarrow> Inl e'
           | Inr t \<Rightarrow>
               (let n = strip (remove_all title_suffix t) in
                Inr (if n = [] then info_get predefined_info p_name unknown_property else n))))"

text \<open>
  The rows: the first selector with a row that passes the filter gives them all; a row
  passes when its text has no header label, a price and a room number or layout.
\<close>

definition row_keep :: "row \<Rightarrow> bool" where
  "row_keep r =
     (case row_text r of
        Inl e \<Rightarrow> False
      | Inr t \<Rightarrow>
          truthy t \<and> \<not> list_ex (\<lambda>header. contains header (the t)) header_labels
          \<and> found price_yen_rx (the t)
          \<and> (found room_no_rx (the t) \<or> found ldk_rx (the t)))"

fun find_room_rows :: "page \<Rightarrow> ustr list \<Rightarrow> row list" where
  "find_room_rows pg [] = []"
| "find_room_rows pg (selector # selectors) =
     (case query_selector_all pg selector of
        Inl e \<Rightarrow> find_room_rows pg selectors
      | Inr rows \<Rightarrow>
          if filter row_keep rows \<noteq> [] then filter row_keep rows
          else find_room_rows pg selectors)"

text \<open>
  The loop over the selectors of one field. The variable takes the text of each element
  found, stripped when it is not blank, and the loop stops at the first text that has the
  shape of the field; a query that raises leaves the variable as it was. After the loop
  the variable holds the last text read, of the right shape or not.
\<close>

fun pick_text ::
  "(ustr \<Rightarrow> bool) \<Rightarrow> (ustr \<Rightarrow> exn + elem option) \<Rightarrow> ustr list \<Rightarrow> ustr option \<Rightarrow> ustr option" where
  "pick_text shape q [] v = v"
| "pick_text shape q (selector # selectors) v =
     (case q selector of
        Inl e \<Rightarrow> pick_text shape q selectors v
      | Inr None \<Rightarrow> pick_text shape q selectors v
      | Inr (Some el) \<Rightarrow>
          (case text_content el of
             Inl e \<Rightarrow> pick_text shape q selectors v
           | Inr t \<Rightarrow>
               if truthy t \<and> strip (the t) \<noteq> []
               then (if shape (strip (the t)) then Some (strip (the t))
                     else pick_text shape q selectors (Some (strip (the t))))
               else pick_text shape q selectors t))"

text \<open>The loop for the layout assigns only the match of the pattern.\<close>

fun pick_type :: "(ustr \<Rightarrow> exn + elem option) \<Rightarrow> ustr list \<Rightarrow> ustr option" where
  "pick_type q [] = None"
| "pick_type q (selector # selectors) =
     (case q selector of
        Inl e \<Rightarrow> pick_type q selectors
      | Inr None \<Rightarrow> pick_type q selectors
      | Inr (Some el) \<Rightarrow>
          (case text_content el of
             Inl e \<Rightarrow> pick_type q selectors
           | Inr t \<Rightarrow>
               if truthy t \<and> strip (the t) \<noteq> []
               then (case search type_rx (strip (the t)) of
                       Some m \<Rightarrow> Some m
                     | None \<Rightarrow> pick_type q selectors)
               else pick_type q selectors))"

text \<open>When the variable is still falsy, the pattern is searched in the text of the row.\<close>

definition from_row_text :: "rx \<Rightarrow> row \<Rightarrow> ustr option \<Rightarrow> ustr option" where
  "from_row_text r rw v =
     (if truthy v then v
      else (case row_text rw of
              Inl e \<Rightarrow> v
            | Inr t \<Rightarrow>
                if truthy t
                then (case search r (the t) of Some m \<Rightarrow> Some m | None \<Rightarrow> v)
                else v))"

definition rent_of :: "row \<Rightarrow> ustr option" where
  "rent_of rw =
     from_row_text price_yen_rx rw (pick_text (found price_rx) (row_query rw) price_selectors None)"

definition room_type_of :: "row \<Rightarrow> ustr option" where
  "room_type_of rw = from_row_text type_rx rw (pick_type (row_query rw) type_selectors)"

definition area_of :: "row \<Rightarrow> ustr option" where
  "area_of rw =
     from_row_text area_rx rw (pick_text (found area_rx) (row_query rw) area_selectors None)"

definition floor_of :: "row \<Rightarrow> ustr option" where
  "floor_of rw =
     from_row_text floor_full_rx rw
       (pick_text (\<lambda>t. found floor_rx t \<or> slash \<in> set t) (row_query rw) floor_selectors None)"

definition has_detail_button :: "row \<Rightarrow> bool" where
  "has_detail_button rw =
     (case row_query rw (asc ''a'') of
        Inl e \<Rightarrow> False
      | Inr None \<Rightarrow> False
      | Inr (Some b) \<Rightarrow>
          (case text_content b of
             Inl e \<Rightarrow> False
           | Inr button_text \<Rightarrow>
               (case href b of
                  Inl e \<Rightarrow> False
                | Inr button_href \<Rightarrow>
                    (truthy button_text \<and> contains detail_label (the button_text))
                    \<or> (truthy button_href \<and> contains (asc ''room.html'') (the button_href)))))"

definition or_unknown :: "ustr option \<Rightarrow> ustr" where
  "or_unknown v = (if truthy v then the v else unknown)"

text \<open>
  One row: the room appended to \<^verbatim>\<open>vacant_rooms\<close>, if any. (The program also reads a
  room name from the row and never uses it.)
\<close>

definition extract_room :: "row \<Rightarrow> room option" where
  "extract_room rw =
     (let rent_v = rent_of rw;
          room_type = room_type_of rw;
          area_v = area_of rw;
          floor_v = floor_of rw;
          is_vacant = (has_detail_button rw \<or> (truthy rent_v \<and> truthy room_type))
      in if is_vacant \<and> (truthy room_type \<and> truthy rent_v)
         then Some \<lparr>rtype = or_unknown room_type, rent = or_unknown rent_v,
                    area = or_unknown area_v, floor = or_unknown floor_v\<rparr>
         else None)"

fun extract_rooms :: "row list \<Rightarrow> room list" where
  "extract_rooms [] = []"
| "extract_rooms (rw # rws) =
     (case extract_room rw of
        Some rm \<Rightarrow> rm # extract_rooms rws
      | None \<Rightarrow> extract_rooms rws)"

text \<open>The four further fields, each with its source.\<close>

definition scraped_field :: "ustr option \<Rightarrow> ustr \<times> ustr" where
  "scraped_field v = (or_unknown v, if truthy v then scraped_src else unknown)"

definition scrape_transportation :: "page \<Rightarrow> ustr \<times> ustr" where
  "scrape_transportation pg =
     (let t = pick_text (\<lambda>t. True) (query_selector pg) transportation_selectors None in
      if truthy t then scraped_field t
      else (case body_text pg of
              Inl e \<Rightarrow> (unknown, unknown)
            | Inr page_text \<Rightarrow>
                if truthy page_text
                then (case search transport_rx (the page_text) of
                        Some m \<Rightarrow> scraped_field (Some (strip m))
                      | None \<Rightarrow> scraped_field t)
                else scraped_field t))"

definition scrape_address :: "page \<Rightarrow> ustr \<times> ustr" where
  "scrape_address pg =
     scraped_field (pick_text (\<lambda>t. True) (query_selector pg) address_selectors None)"

definition scrape_phone :: "page \<Rightarrow> ustr \<times> ustr" where
  "scrape_phone pg =
     (let t = pick_text (\<lambda>t. True) (query_selector pg) phone_selectors None in
      if truthy t then scraped_field t
      else (case body_text pg of
              Inl e \<Rightarrow> (unknown, unknown)
            | Inr page_text \<Rightarrow>
                if truthy page_text
                then (case search_group phone_label_rx phone_digits_rx Eps (the page_text) of
                        Some m \<Rightarrow> scraped_field (Some (strip m))
                      | None \<Rightarrow> scraped_field t)
                else scraped_field t))"

definition scrape_management_years :: "page \<Rightarrow> ustr \<times> ustr" where
  "scrape_management_years pg =
     scraped_field (pick_text (\<lambda>t. True) (query_selector pg) management_selectors None)"

definition all_predefined :: "pinfo option \<Rightarrow> bool" where
  "all_predefined predefined_info =
     (info_truthy predefined_info
      \<and> p_transportation (the predefined_info) \<noteq> None
      \<and> p_address (the predefined_info) \<noteq> None
      \<and> p_phone (the predefined_info) \<noteq> None
      \<and> p_management_years (the predefined_info) \<noteq> None)"

definition further_info :: "page \<Rightarrow> pinfo option \<Rightarrow> (ustr \<times> ustr) \<Rightarrow> (pinfo \<Rightarrow> ustr option) \<Rightarrow> ustr \<times> ustr" where
  "further_info pg predefined_info scraped key =
     (if all_predefined predefined_info
      then (the (key (the predefined_info)), predefined_src)
      else scraped)"

text \<open>
  The title of the result: the page title, read when the dictionary is built, unless a
  predefined name is given.
\<close>

definition result_title :: "page \<Rightarrow> pinfo option \<Rightarrow> ustr \<Rightarrow> exn + ustr" where
  "result_title pg predefined_info name =
     (if info_truthy predefined_info \<and> truthy (p_name (the predefined_info))
      then Inr name else page_title pg)"

definition success_result ::
  "ustr \<Rightarrow> ustr \<Rightarrow> ustr \<Rightarrow> room list \<Rightarrow> ustr \<times> ustr \<Rightarrow> ustr \<times> ustr \<Rightarrow> ustr \<times> ustr
     \<Rightarrow> ustr \<times> ustr \<Rightarrow> presult" where
  "success_result u name t rooms ph tr ad my =
     \<lparr>url = u,
      property_name = Some name,
      title = t,
      vacant_rooms = rooms,
      total_vacant = int (length rooms),
      phone_number = fst ph,
      phone_source = snd ph,
      transportation = fst tr,
      transportation_source = snd tr,
      address = fst ad,
      address_source = snd ad,
      management_years = fst my,
      management_years_source = snd my,
      status = Success,
      error = None\<rparr>"

text \<open>
  \<^verbatim>\<open>extract_property_info\<close>. Only the two readings of the page title can raise up to
  the outer handler, which returns a failed result.
\<close>

definition extract_property_info :: "page \<Rightarrow> ustr \<Rightarrow> pinfo option \<Rightarrow> presult" where
  "extract_property_info pg u predefined_info =
     (case extract_name pg predefined_info of
        Inl e \<Rightarrow>
          failed_result u predefined_info (asc ''Unknown'') unknown_zh predefined_zh
            max_retries_exceeded
      | Inr name \<Rightarrow>
          (case result_title pg predefined_info name of
             Inl e \<Rightarrow>
               failed_result u predefined_info (asc ''Unknown'') unknown_zh predefined_zh
                 max_retries_exceeded
           | Inr t \<Rightarrow>
               success_result u name t
                 (extract_rooms (find_room_rows pg room_table_selectors))
                 (further_info pg predefined_info (scrape_phone pg) p_phone)
                 (further_info pg predefined_info (scrape_transportation pg) p_transportation)
                 (further_info pg predefined_info (scrape_address pg) p_address)
                 (further_info pg predefined_info (scrape_management_years pg)
                    p_management_years)))"

section \<open>Checking the targets\<close>

text \<open>
  What the browser does for one target is an input: whether \<^verbatim>\<open>new_page\<close> succeeds,
  which attempts of \<^verbatim>\<open>goto\<close> succeed, the page then shown, and whether
  \<^verbatim>\<open>close\<close> succeeds. The calls made on the browser and the waits are recorded as a
  trace; a page is named by the index of its target.
\<close>

record site =
  new_page_ok :: bool
  goto_ok :: "nat \<Rightarrow> bool"
  shown :: page
  close_ok :: bool

datatype event =
    New_page nat
  | Goto nat nat
  | Sleep_delay
  | Sleep_backoff nat
  | Close_page nat
  | Close_browser

text \<open>
  The retry loop over \<^verbatim>\<open>range(max_retries)\<close>, from a given attempt on. The result
  is \<open>True\<close> when the loop is left by \<^verbatim>\<open>break\<close> or runs out, \<open>False\<close> when the last
  attempt fails and the function returns from inside the loop.
\<close>

fun navigate :: "int \<Rightarrow> (nat \<Rightarrow> bool) \<Rightarrow> nat \<Rightarrow> nat list \<Rightarrow> event list \<times> bool" where
  "navigate max_retries ok index [] = ([], True)"
| "navigate max_retries ok index (attempt # attempts) =
     (if ok attempt then ([Goto index attempt, Sleep_delay], True)
      else if int attempt < max_retries - 1
      then (case navigate max_retries ok index attempts of
              (evs, r) \<Rightarrow> (Goto index attempt # Sleep_backoff (2 ^ attempt) # evs, r))
      else ([Goto index attempt], False))"

definition load_failed_result :: "ustr \<Rightarrow> pinfo option \<Rightarrow> presult" where
  "load_failed_result u predefined_info =
     failed_result u predefined_info unknown_property unknown predefined_src page_load_failed"

definition retries_failed_result :: "ustr \<Rightarrow> pinfo option \<Rightarrow> presult" where
  "retries_failed_result u predefined_info =
     failed_result u predefined_info unknown_property unknown predefined_src
       max_retries_exceeded"

definition check_single_property ::
  "int \<Rightarrow> site \<Rightarrow> ustr \<Rightarrow> nat \<Rightarrow> pinfo option \<Rightarrow> event list \<times> presult" where
  "check_single_property max_retries st u index predefined_info =
     (if \<not> new_page_ok st then ([], retries_failed_result u predefined_info)
      else (case navigate max_retries (goto_ok st) index [0..<nat max_retries] of
              (evs, False) \<Rightarrow> (New_page index # evs, load_failed_result u predefined_info)
            | (evs, True) \<Rightarrow>
                (let result = extract_property_info (shown st) u predefined_info in
                 if \<not> close_ok st
                 then (New_page index # evs, retries_failed_result u predefined_info)
                 else if status result = Success
                 then (New_page index # evs @ [Close_page index], result)
                 else (New_page index # evs @ [Close_page index],
                       retries_failed_result u predefined_info))))"

text \<open>
  A target is a dictionary or a pair of a url and a name. The browser gives, for the
  index of a target, what that target meets.
\<close>

datatype target = Dict_item pinfo | Tuple_item ustr "ustr option"

fun target_url :: "target \<Rightarrow> ustr" where
  "target_url (Dict_item item) = (case p_url item of Some u \<Rightarrow> u | None \<Rightarrow> [])"
| "target_url (Tuple_item u name) = u"

fun target_info :: "target \<Rightarrow> pinfo option" where
  "target_info (Dict_item item) = Some item"
| "target_info (Tuple_item u name) =
     (if truthy name
      then Some \<lparr>p_url = None, p_name = name, p_transportation = None, p_address = None,
                 p_phone = None, p_management_years = None\<rparr>
      else None)"

fun check_from ::
  "int \<Rightarrow> (nat \<Rightarrow> site) \<Rightarrow> nat \<Rightarrow> nat \<Rightarrow> target list \<Rightarrow> event list \<times> presult list" where
  "check_from max_retries browser len i [] = ([], [])"
| "check_from max_retries browser len i (item # items) =
     (if target_url item = [] then check_from max_retries browser len (Suc i) items
      else (case check_single_property max_retries (browser i) (target_url item) i
                   (target_info item) of
              (ev, result) \<Rightarrow>
                (case check_from max_retries browser len (Suc i) items of
                   (evs, rs) \<Rightarrow>
                     (ev @ (if i < len then [Sleep_delay] else []) @ evs, result # rs))))"

definition check_properties ::
  "int \<Rightarrow> (nat \<Rightarrow> site) \<Rightarrow> target list \<Rightarrow> event list \<times> presult list" where
  "check_properties max_retries browser url_data =
     (case check_from max_retries browser (length url_data) 1 url_data of
        (evs, rs) \<Rightarrow> (evs @ [Close_browser], rs))"

section \<open>Example inputs\<close>

text \<open>A page whose every call raises, on a site that is otherwise well.\<close>

definition broken_page :: page where
  "broken_page =
     \<lparr>query_selector = (\<lambda>s. Inl (RendererError (asc ''closed''))),
      query_selector_all = (\<lambda>s. Inl (RendererError (asc ''closed''))),
      page_title = Inl (RendererError (asc ''closed'')),
      body_text = Inl (RendererError (asc ''closed''))\<rparr>"

definition broken_site :: site where
  "broken_site =
     \<lparr>new_page_ok = True, goto_ok = (\<lambda>a. True), shown = broken_page, close_ok = True\<rparr>"

text \<open>A page with a title and nothing else, and three sites.\<close>

definition plain_page :: page where
  "plain_page =
     \<lparr>query_selector = (\<lambda>s. Inr None),
      query_selector_all = (\<lambda>s. Inr []),
      page_title = Inr (asc ''Danchi''),
      body_text = Inr None\<rparr>"

definition plain_site :: site where
  "plain_site =
     \<lparr>new_page_ok = True, goto_ok = (\<lambda>a. True), shown = plain_page, close_ok = True\<rparr>"


definition unreachable_site :: site where
  "unreachable_site =
     \<lparr>new_page_ok = True, goto_ok = (\<lambda>a. False), shown = plain_page, close_ok = True\<rparr>"

definition url_a :: ustr where
  "url_a = asc ''https://www.ur-net.go.jp/a''"

definition url_b :: ustr where
  "url_b = asc ''https://www.ur-net.go.jp/b''"

definition info_a :: pinfo where
  "info_a =
     \<lparr>p_url = Some url_a, p_name = Some (asc ''A''), p_transportation = Some (asc ''Line 1''),
      p_address = Some (asc ''Tokyo''), p_phone = Some (asc ''03-0000-0000''),
      p_management_years = Some (asc ''10'')\<rparr>"

definition info_without_url :: pinfo where
  "info_without_url =
     \<lparr>p_url = None, p_name = Some (asc ''A''), p_transportation = None, p_address = None,
      p_phone = None, p_management_years = None\<rparr>"

definition targets_missing_url :: "target list" where
  "targets_missing_url = [Dict_item info_without_url, Tuple_item url_b None]"

definition targets_ab :: "target list" where
  "targets_ab = [Dict_item info_a, Tuple_item url_b None]"

definition first_unreachable :: "nat \<Rightarrow> site" where
  "first_unreachable i = (if i = 1 then unreachable_site else plain_site)"


text \<open>
  A previous snapshot with one vacant room at \<open>url_a\<close> and two at \<open>url_b\<close>, and a
  run with one, three and one at \<open>url_a\<close>, \<open>url_b\<close> and \<open>url_c\<close>.
\<close>

definition url_c :: ustr where
  "url_c = asc ''https://www.ur-net.go.jp/c''"

definition some_room :: room where
  "some_room = \<lparr>rtype = asc ''2LDK'', rent = asc ''85,000'', area = unknown, floor = unknown\<rparr>"

definition vacant_result :: "ustr \<Rightarrow> nat \<Rightarrow> presult" where
  "vacant_result u n =
     success_result u (asc ''Danchi'') (asc ''Danchi'') (replicate n some_room)
       (unknown, unknown) (unknown, unknown) (unknown, unknown) (unknown, unknown)"

definition results_dir_ex :: path where
  "results_dir_ex = asc ''results''"

definition prior_file :: path where
  "prior_file = path_join results_dir_ex (asc ''ur_net_results_20250101_000000.json'')"

definition prior_results :: "presult list" where
  "prior_results = [vacant_result url_a 1, vacant_result url_b 2]"

definition prior_snapshot :: snapshot where
  "prior_snapshot =
     \<lparr>timestamp = asc ''2025-01-01T00:00:00'', total_checked = 2, total_vacant_rooms = 3,
      results = prior_results\<rparr>"

definition fs_prior :: fs where
  "fs_prior = [(results_dir_ex, Dir), (prior_file, File (Json_doc prior_snapshot))]"

definition current_abc :: "presult list" where
  "current_abc = [vacant_result url_a 1, vacant_result url_b 3, vacant_result url_c 1]"

text \<open>A second run that ends within the second of the previous snapshot.\<close>

definition clock_same :: clock where
  "clock_same = \<lparr>now_stamp = asc ''20250101_000000'', now_iso = asc ''2025-01-01T00:00:00.9''\<rparr>"

definition snapshot_abc :: snapshot where
  "snapshot_abc =
     \<lparr>timestamp = asc ''2025-01-01T00:00:00.9'', total_checked = 3, total_vacant_rooms = 5,
      results = current_abc\<rparr>"

text \<open>The same directory with a previous file that does not hold JSON.\<close>

definition fs_garbled :: fs where
  "fs_garbled = [(results_dir_ex, Dir), (prior_file, File (Raw (asc ''{'')))]"

text \<open>A run on the next day, and the files after its save.\<close>

definition clock_later :: clock where
  "clock_later = \<lparr>now_stamp = asc ''20250102_000000'', now_iso = asc ''2025-01-02T00:00:00''\<rparr>"

definition later_file :: path where
  "later_file = path_join results_dir_ex (asc ''ur_net_results_20250102_000000.json'')"

definition snapshot_later :: snapshot where
  "snapshot_later =
     \<lparr>timestamp = asc ''2025-01-02T00:00:00'', total_checked = 3, total_vacant_rooms = 5,
      results = current_abc\<rparr>"

definition fs_later :: fs where
  "fs_later =
     [(results_dir_ex, Dir), (prior_file, File (Json_doc prior_snapshot)),
      (later_file, File (Json_doc snapshot_later))]"

text \<open>Whether the name of a file holds a timestamp of the expected form.\<close>

definition has_timestamp :: "path \<Rightarrow> bool" where
  "has_timestamp filepath =
     (search_group (lit results_prefix) stamp_rx (lit json_suffix) (basename filepath) \<noteq> None)"

text \<open>
  Directories whose listing starts with a file named without a timestamp: followed by the
  two snapshots, by a snapshot stamped with zeros, and by a second file without a
  timestamp.
\<close>

definition stray_file :: path where
  "stray_file = path_join results_dir_ex (asc ''ur_net_results_latest.json'')"

definition backup_file :: path where
  "backup_file = path_join results_dir_ex (asc ''ur_net_results_backup.json'')"

definition zero_file :: path where
  "zero_file = path_join results_dir_ex (asc ''ur_net_results_00000000_000000.json'')"

definition fs_mixed :: fs where
  "fs_mixed =
     [(results_dir_ex, Dir), (stray_file, File (Raw [])),
      (prior_file, File (Json_doc prior_snapshot)),
      (later_file, File (Json_doc snapshot_later))]"

definition fs_zero :: fs where
  "fs_zero =
     [(results_dir_ex, Dir), (stray_file, File (Raw [])),
      (zero_file, File (Json_doc prior_snapshot))]"

definition fs_strays :: fs where
  "fs_strays =
     [(results_dir_ex, Dir), (stray_file, File (Raw [])), (backup_file, File (Raw []))]"

text \<open>
  Rows of a listing. The cells of \<open>shifted_row\<close> are a room name, nothing, the layout, the
  text of the sentinel and the price: the price is not in the third or fourth cell, where
  the program looks for it. \<open>plain_row\<close> has the columns the program expects, and
  \<open>partial_row\<close> shows a layout and no price.
\<close>

definition cell :: "ustr \<Rightarrow> exn + elem option" where
  "cell t = Inr (Some (Elem (Inr (Some t)) (Inr None)))"

definition room_101 :: ustr where
  "room_101 = [49, 21495, 26847, 49, 48, 49, 21495, 23460]"

definition yen_85000 :: ustr where
  "yen_85000 = asc ''85,000'' @ [20870]"

definition shifted_row :: row where
  "shifted_row =
     Row (Inr (Some (room_101 @ asc ''2LDK'' @ unknown @ yen_85000)))
       (\<lambda>s. if s = asc ''td:nth-child(3)'' then cell (asc ''2LDK'')
             else if s = asc ''td:nth-child(4)'' then cell unknown
             else if s = asc ''td:nth-child(5)'' \<or> s = asc ''td:last-child'' then cell yen_85000
             else Inr None)"

definition shifted_room :: room where
  "shifted_room = \<lparr>rtype = asc ''2LDK'', rent = unknown, area = yen_85000, floor = yen_85000\<rparr>"

definition shifted_page :: page where
  "shifted_page =
     \<lparr>query_selector = (\<lambda>s. Inr None),
      query_selector_all = (\<lambda>s. if s = asc ''tr'' then Inr [shifted_row] else Inr []),
      page_title = Inr (asc ''Danchi''),
      body_text = Inr None\<rparr>"

definition plain_row :: row where
  "plain_row =
     Row (Inr (Some (room_101 @ yen_85000 @ asc ''2LDK'' @ asc ''50'' @ [13217] @ asc ''3'' @ [38542])))
       (\<lambda>s. if s = asc ''td:nth-child(3)'' then cell yen_85000
             else if s = asc ''td:nth-child(4)'' then cell (asc ''2LDK'')
             else if s = asc ''td:nth-child(5)'' then cell (asc ''50'' @ [13217])
             else if s = asc ''td:nth-child(6)'' \<or> s = asc ''td:last-child''
             then cell (asc ''3'' @ [38542])
             else Inr None)"

definition plain_room :: room where
  "plain_room =
     \<lparr>rtype = asc ''2LDK'', rent = yen_85000, area = asc ''50'' @ [13217],
      floor = asc ''3'' @ [38542]\<rparr>"

definition partial_row :: row where
  "partial_row = Row (Inr (Some (room_101 @ asc ''2LDK''))) (\<lambda>s. Inr None)"

definition listing_page :: page where
  "listing_page =
     \<lparr>query_selector = (\<lambda>s. Inr None),
      query_selector_all = (\<lambda>s. if s = asc ''tr'' then Inr [partial_row, plain_row] else Inr []),
      page_title = Inr (asc ''Danchi''),
      body_text = Inr None\<rparr>"

text \<open>The shape of a match of the layout pattern: digits, then letters of SLDK.\<close>

definition layout_shape :: "ustr \<Rightarrow> bool" where
  "layout_shape m =
     (\<exists>ds ls. m = ds @ ls \<and> ds \<noteq> [] \<and> ls \<noteq> [] \<and> (\<forall>c \<in> set ds. isdigit c)
        \<and> (\<forall>c \<in> set ls. c \<in> set (asc ''SLDK'')))"

section \<open>Properties of the results\<close>

lemma failed_result_fields [simp]:
  "url (failed_result u pre nn unk prs err) = u"
  "vacant_rooms (failed_result u pre nn unk prs err) = []"
  "total_vacant (failed_result u pre nn unk prs err) = 0"
  "status (failed_result u pre nn unk prs err) = Failed"
  "error (failed_result u pre nn unk prs err) = Some err"
  by (simp_all add: failed_result_def)

lemma success_result_fields [simp]:
  "url (success_result u name t rooms ph tr ad my) = u"
  "vacant_rooms (success_result u name t rooms ph tr ad my) = rooms"
  "total_vacant (success_result u name t rooms ph tr ad my) = int (length rooms)"
  "status (success_result u name t rooms ph tr ad my) = Success"
  by (simp_all add: success_result_def)

lemma extract_property_info_url: "url (extract_property_info pg u pre) = u"
  by (simp add: extract_property_info_def split: sum.splits)

lemma extract_property_info_count:
  "total_vacant (extract_property_info pg u pre)
     = int (length (vacant_rooms (extract_property_info pg u pre)))"
  by (simp add: extract_property_info_def split: sum.splits)

lemma extract_property_info_failed:
  "status (extract_property_info pg u pre) = Failed
   \<Longrightarrow> vacant_rooms (extract_property_info pg u pre) = []"
  by (simp add: extract_property_info_def split: sum.splits)

text \<open>The three results a check of one target can return.\<close>

lemma check_single_property_cases:
  "snd (check_single_property mr st u i pre) = retries_failed_result u pre
   \<or> snd (check_single_property mr st u i pre) = load_failed_result u pre
   \<or> (snd (check_single_property mr st u i pre) = extract_property_info (shown st) u pre
       \<and> status (extract_property_info (shown st) u pre) = Success)"
  by (simp add: check_single_property_def Let_def split: prod.splits bool.splits)

lemma check_single_property_url: "url (snd (check_single_property mr st u i pre)) = u"
  using check_single_property_cases [of mr st u i pre]
  by (auto simp: extract_property_info_url retries_failed_result_def load_failed_result_def)

text \<open>
  C10. On every return path of the extraction and of the check of one target (success,
  navigation retries used up, exception caught) the url of the result is the url that was
  passed in.
\<close>

theorem result_url_is_target_url:
  "url (extract_property_info pg u pre) = u
   \<and> url (snd (check_single_property mr st u i pre)) = u"
  by (simp add: extract_property_info_url check_single_property_url)

text \<open>
  C4. On every return path of the extraction and of the check of one target, the count
  \<^verbatim>\<open>total_vacant\<close> is the length of \<^verbatim>\<open>vacant_rooms\<close>, and a failed result has no
  rooms.
\<close>

theorem unit_count_invariant:
  "total_vacant (extract_property_info pg u pre)
     = int (length (vacant_rooms (extract_property_info pg u pre)))
   \<and> (status (extract_property_info pg u pre) = Failed
        \<longrightarrow> vacant_rooms (extract_property_info pg u pre) = [])
   \<and> total_vacant (snd (check_single_property mr st u i pre))
       = int (length (vacant_rooms (snd (check_single_property mr st u i pre))))
   \<and> (status (snd (check_single_property mr st u i pre)) = Failed
        \<longrightarrow> vacant_rooms (snd (check_single_property mr st u i pre)) = [])"
  using check_single_property_cases [of mr st u i pre]
  by (auto simp: extract_property_info_count extract_property_info_failed
        retries_failed_result_def load_failed_result_def)

theorem unit_count_invariant_witness:
  "status (extract_property_info broken_page (asc ''u'') None) = Failed
   \<and> vacant_rooms (extract_property_info broken_page (asc ''u'') None) = []
   \<and> total_vacant (extract_property_info broken_page (asc ''u'') None) = 0
   \<and> status (snd (check_single_property 1 broken_site (asc ''u'') 1 None)) = Failed
   \<and> vacant_rooms (snd (check_single_property 1 broken_site (asc ''u'') 1 None)) = []
   \<and> total_vacant (snd (check_single_property 1 broken_site (asc ''u'') 1 None)) = 0"
proof -
  have a: "status (extract_property_info broken_page (asc ''u'') None) = Failed"
    by (simp add: extract_property_info_def extract_name_def name_from_selectors_def
          broken_page_def)
  have b: "status (snd (check_single_property 1 broken_site (asc ''u'') 1 None)) = Failed"
    using check_single_property_cases [of 1 broken_site "asc ''u''" 1 None] a
    by (auto simp: retries_failed_result_def load_failed_result_def broken_site_def)
  from a b unit_count_invariant [of broken_page "asc ''u''" None 1 broken_site 1]
  show ?thesis by simp
qed

lemma check_from_urls:
  "map url (snd (check_from mr br n i ts)) = filter (\<lambda>u. u \<noteq> []) (map target_url ts)"
proof (induction ts arbitrary: i)
  case Nil
  then show ?case by simp
next
  case (Cons t ts)
  then show ?case
    by (simp add: case_prod_unfold check_single_property_url)
qed

text \<open>
  C1, as the code has it. The results are those of the targets with a non-empty url, one
  each and in the order of the input; a target whose url is empty or missing is skipped
  by the guard of the loop and has no result.
\<close>

theorem one_result_per_target_with_url:
  "map url (snd (check_properties mr br ts)) = filter (\<lambda>u. u \<noteq> []) (map target_url ts)
   \<and> length (snd (check_properties mr br ts))
       = length (filter (\<lambda>u. u \<noteq> []) (map target_url ts))"
proof -
  have m: "map url (snd (check_properties mr br ts))
          = filter (\<lambda>u. u \<noteq> []) (map target_url ts)"
    using check_from_urls [of mr br "length ts" 1 ts]
    by (simp add: check_properties_def case_prod_unfold)
  have "length (snd (check_properties mr br ts))
          = length (map url (snd (check_properties mr br ts)))"
    by simp
  also have "\<dots> = length (filter (\<lambda>u. u \<noteq> []) (map target_url ts))"
    by (simp only: m)
  finally show ?thesis using m by simp
qed






text \<open>
  C1 as stated fails: of two targets, the first without a url, only the second has a
  result.
\<close>

theorem empty_url_target_dropped:
  "length targets_missing_url = 2
   \<and> map url (snd (check_properties 5 (\<lambda>i. plain_site) targets_missing_url)) = [url_b]"
  by (simp add: targets_missing_url_def check_properties_def info_without_url_def
        check_single_property_url case_prod_unfold url_b_def asc_def)





text \<open>
  C7 fails on the code. With two retries and a first target that cannot be reached, the
  function returns from inside the retry loop: the trace has no \<open>Close_page 1\<close>, and
  the page of the second target is opened while the first is still open. The other paths
  close the page.
\<close>

theorem page_left_open_after_failed_navigation:
  "fst (check_properties 2 first_unreachable targets_ab)
     = [New_page 1, Goto 1 0, Sleep_backoff 1, Goto 1 1, Sleep_delay,
        New_page 2, Goto 2 0, Sleep_delay, Close_page 2, Close_browser]"
  by (simp add: check_properties_def targets_ab_def first_unreachable_def
        check_single_property_def unreachable_site_def plain_site_def info_a_def
        url_a_def url_b_def asc_def upt_rec Let_def case_prod_unfold)

text \<open>
  On the other paths the page is closed: when the navigation does not give up and
  \<^verbatim>\<open>close\<close> succeeds, the trace of the target ends with the closing of its page.
\<close>

lemma page_closed_after_navigation:
  assumes "new_page_ok st" "close_ok st"
    and "snd (navigate mr (goto_ok st) i [0..<nat mr])"
  shows "last (fst (check_single_property mr st u i pre)) = Close_page i"
  using assms
  by (cases "navigate mr (goto_ok st) i [0..<nat mr]")
     (simp add: check_single_property_def Let_def)

section \<open>Properties of the comparison\<close>

lemma vacant_map_snoc:
  "vacant_map (rs @ [r])
     = (if status r = Success \<and> 0 < total_vacant r
        then (vacant_map rs)(url r \<mapsto> entry_of r) else vacant_map rs)"
  by (simp add: vacant_map_def vacant_properties_def update_conv')

lemma vacant_map_last:
  "vacant_map rs u
     = (case filter (\<lambda>r. url r = u \<and> status r = Success \<and> 0 < total_vacant r) rs of
          [] \<Rightarrow> None
        | x # xs \<Rightarrow> Some (entry_of (last (x # xs))))"
proof (induction rs rule: rev_induct)
  case Nil
  show ?case by (simp add: vacant_map_def vacant_properties_def)
next
  case (snoc r rs)
  then show ?case
    by (cases "filter (\<lambda>r. url r = u \<and> status r = Success \<and> 0 < total_vacant r) rs")
       (auto simp: vacant_map_snoc)
qed

lemma vacant_map_dom:
  "(vacant_map rs u \<noteq> None)
     = (\<exists>r \<in> set rs. url r = u \<and> status r = Success \<and> 0 < total_vacant r)"
proof -
  have "(filter (\<lambda>r. url r = u \<and> status r = Success \<and> 0 < total_vacant r) rs \<noteq> [])
      = (\<exists>r \<in> set rs. url r = u \<and> status r = Success \<and> 0 < total_vacant r)"
    by (auto simp: filter_empty_conv)
  then show ?thesis
    by (cases "filter (\<lambda>r. url r = u \<and> status r = Success \<and> 0 < total_vacant r) rs")
       (simp_all add: vacant_map_last)
qed

lemma fold_update_distinct:
  "distinct (map fst d) \<Longrightarrow>
   distinct (map fst (fold (\<lambda>r d. if status r = Success \<and> total_vacant r > 0
                  then AList.update (url r) (entry_of r) d else d) rs d))"
  by (induction rs arbitrary: d) (simp_all add: distinct_update)

lemma vacant_properties_distinct: "distinct (map fst (vacant_properties rs))"
  by (simp add: vacant_properties_def fold_update_distinct)

lemma vacant_properties_keys:
  "(u \<in> set (map fst (vacant_properties rs))) = (vacant_map rs u \<noteq> None)"
  by (simp add: vacant_map_def map_of_eq_None_iff)

lemma new_vacant_urls_set:
  "set (new_vacant_urls rank (vacant_properties cs) (vacant_properties ps))
     = {u. vacant_map cs u \<noteq> None \<and> vacant_map ps u = None}"
  using vacant_properties_keys [of _ cs]
  by (auto simp: new_vacant_urls_def vacant_map_def)

lemma increased_vacant_urls_set:
  "set (increased_vacant_urls (vacant_properties cs) (vacant_properties ps))
     = {u. \<exists>ce pe. vacant_map cs u = Some ce \<and> vacant_map ps u = Some pe
             \<and> ve_total_vacant pe < ve_total_vacant ce}"
  using vacant_properties_keys [of _ cs]
  by (auto simp: increased_vacant_urls_def vacant_map_def split: option.splits)

lemma collect_new_urls:
  "map np_url (collect_new cur nu all) = filter (\<lambda>u. map_of cur u \<noteq> None) all"
  by (induction all) (auto simp: collect_new_def split: option.splits)

lemma collect_new_entry:
  assumes "np \<in> set (collect_new cur nu all)"
  shows "np_url np \<in> set all
   \<and> np_change_type np = (if np_url np \<in> set nu then New else Increased)
   \<and> (\<exists>ce. map_of cur (np_url np) = Some ce
          \<and> np_property_name np = ve_property_name ce
          \<and> np_total_vacant np = ve_total_vacant ce
          \<and> np_vacant_rooms np = ve_vacant_rooms ce)"
proof -
  from assms obtain u where u: "u \<in> set all"
    and np: "np \<in> set (case map_of cur u of
                 None \<Rightarrow> []
               | Some ce \<Rightarrow>
                   [\<lparr>np_url = u,
                     np_property_name = ve_property_name ce,
                     np_total_vacant = ve_total_vacant ce,
                     np_vacant_rooms = ve_vacant_rooms ce,
                     np_change_type = (if u \<in> set nu then New else Increased)\<rparr>])"
    by (auto simp: collect_new_def)
  from np obtain ce where ce: "map_of cur u = Some ce"
    and eq: "np = \<lparr>np_url = u,
                     np_property_name = ve_property_name ce,
                     np_total_vacant = ve_total_vacant ce,
                     np_vacant_rooms = ve_vacant_rooms ce,
                     np_change_type = (if u \<in> set nu then New else Increased)\<rparr>"
    by (cases "map_of cur u") auto
  show ?thesis using u ce by (simp add: eq)
qed

lemma compare_results_urls:
  assumes "load_previous fs f = Inr ps"
  shows "map np_url (new_properties (compare_results rank fs cs f))
     = new_vacant_urls rank (vacant_properties cs) (vacant_properties ps)
       @ increased_vacant_urls (vacant_properties cs) (vacant_properties ps)"
proof -
  let ?nu = "new_vacant_urls rank (vacant_properties cs) (vacant_properties ps)"
  let ?inc = "increased_vacant_urls (vacant_properties cs) (vacant_properties ps)"
  have "\<forall>u \<in> set (?nu @ ?inc). map_of (vacant_properties cs) u \<noteq> None"
    using new_vacant_urls_set [of rank cs ps] increased_vacant_urls_set [of cs ps]
    by (auto simp: vacant_map_def)
  then have "filter (\<lambda>u. map_of (vacant_properties cs) u \<noteq> None) (?nu @ ?inc) = ?nu @ ?inc"
    by (simp only: filter_id_conv)
  then show ?thesis
    using assms by (simp add: compare_results_def Let_def collect_new_urls)
qed

lemma compare_results_flagged:
  assumes "load_previous fs f = Inr ps"
  shows "set (map np_url (new_properties (compare_results rank fs cs f)))
     = {u. vacant_map cs u \<noteq> None \<and> vacant_map ps u = None}
       \<union> {u. \<exists>ce pe. vacant_map cs u = Some ce \<and> vacant_map ps u = Some pe
             \<and> ve_total_vacant pe < ve_total_vacant ce}"
  by (simp only: compare_results_urls [OF assms] set_append new_vacant_urls_set
        increased_vacant_urls_set)

lemma compare_results_distinct:
  assumes "load_previous fs f = Inr ps"
  shows "distinct (map np_url (new_properties (compare_results rank fs cs f)))"
proof -
  have a: "distinct (new_vacant_urls rank (vacant_properties cs) (vacant_properties ps))"
    using vacant_properties_distinct [of cs] by (simp add: new_vacant_urls_def)
  have b: "distinct (increased_vacant_urls (vacant_properties cs) (vacant_properties ps))"
    using vacant_properties_distinct [of cs] by (simp add: increased_vacant_urls_def)
  have c: "set (new_vacant_urls rank (vacant_properties cs) (vacant_properties ps))
      \<inter> set (increased_vacant_urls (vacant_properties cs) (vacant_properties ps)) = {}"
    by (auto simp: new_vacant_urls_set increased_vacant_urls_set)
  show ?thesis
    using a b c by (simp add: compare_results_urls [OF assms])
qed

lemma compare_results_entry:
  assumes "load_previous fs f = Inr ps"
    and "np \<in> set (new_properties (compare_results rank fs cs f))"
  shows "np_change_type np = (if vacant_map ps (np_url np) = None then New else Increased)
     \<and> (\<exists>ce. vacant_map cs (np_url np) = Some ce
            \<and> np_property_name np = ve_property_name ce
            \<and> np_total_vacant np = ve_total_vacant ce
            \<and> np_vacant_rooms np = ve_vacant_rooms ce)"
proof -
  let ?nu = "new_vacant_urls rank (vacant_properties cs) (vacant_properties ps)"
  let ?inc = "increased_vacant_urls (vacant_properties cs) (vacant_properties ps)"
  have mem: "np \<in> set (collect_new (vacant_properties cs) ?nu (?nu @ ?inc))"
    using assms by (simp add: compare_results_def Let_def)
  note e = collect_new_entry [OF mem]
  have "np_url np \<in> set ?nu \<or> np_url np \<in> set ?inc" using e by simp
  then have "(np_url np \<in> set ?nu) = (vacant_map ps (np_url np) = None)"
    by (auto simp: new_vacant_urls_set increased_vacant_urls_set)
  then show ?thesis using e by (simp add: vacant_map_def)
qed

lemma compare_results_notify:
  assumes "load_previous fs f = Inr ps"
  shows "has_new_properties (compare_results rank fs cs f)
     = (set (map np_url (new_properties (compare_results rank fs cs f))) \<noteq> {})"
  using assms by (simp add: compare_results_def Let_def)


lemma max_by_mem: "max_by k b xs \<in> set (b # xs)"
  by (induction xs arbitrary: b) (auto split: if_splits)

lemma starts_with_Nil: "starts_with p [] = (p = [])"
  by (cases p) simp_all

lemma glob_results_nonempty: "p \<in> set (glob_results fs d) \<Longrightarrow> p \<noteq> []"
  by (auto simp: glob_results_def starts_with_Nil split: if_splits)

lemma find_latest_mem:
  "find_latest_result_file fs d = Some f \<Longrightarrow> f \<in> set (glob_results fs d)"
  using max_by_mem [of extract_timestamp]
  by (auto simp: find_latest_result_file_def split: if_splits list.splits)

lemma should_send_email_latest:
  assumes "find_latest_result_file fs d = Some f"
  shows "should_send (should_send_email rank fs cs d)
           = has_new_properties (compare_results rank fs cs f)
     \<and> is_first_run (should_send_email rank fs cs d) = False
     \<and> comparison (should_send_email rank fs cs d) = Some (compare_results rank fs cs f)"
proof -
  have "f \<noteq> []" using find_latest_mem [OF assms] by (rule glob_results_nonempty)
  then show ?thesis using assms by (simp add: should_send_email_def Let_def)
qed

lemma urls_distinct: "url_a \<noteq> url_b" "url_a \<noteq> url_c" "url_b \<noteq> url_c"
  "url_b \<noteq> url_a" "url_c \<noteq> url_a" "url_c \<noteq> url_b"
  by (simp_all add: url_a_def url_b_def url_c_def asc_def)

lemma prior_file_not_dir: "prior_file \<noteq> results_dir_ex"
  by (simp add: prior_file_def path_join_def)

lemma load_prior: "load_previous fs_prior prior_file = Inr prior_results"
  using prior_file_not_dir by (simp add: load_previous_def fs_prior_def prior_snapshot_def)

lemma vp_prior: "vacant_properties prior_results
   = [(url_a, entry_of (vacant_result url_a 1)), (url_b, entry_of (vacant_result url_b 2))]"
  by (simp add: vacant_properties_def prior_results_def vacant_result_def urls_distinct)

lemma vp_current: "vacant_properties current_abc
   = [(url_a, entry_of (vacant_result url_a 1)), (url_b, entry_of (vacant_result url_b 3)),
      (url_c, entry_of (vacant_result url_c 1))]"
  by (simp add: vacant_properties_def current_abc_def vacant_result_def urls_distinct)

lemma example_diff:
  "map (\<lambda>np. (np_url np, np_change_type np))
         (new_properties (compare_results rank fs_prior current_abc prior_file))
       = [(url_c, New), (url_b, Increased)]
   \<and> has_new_properties (compare_results rank fs_prior current_abc prior_file)"
  by (simp add: compare_results_def load_prior vp_prior vp_current
      new_vacant_urls_def increased_vacant_urls_def collect_new_def Let_def urls_distinct
      entry_of_def vacant_result_def)

lemma glob_prior_file:
  "map_of fs results_dir_ex = Some Dir \<Longrightarrow> map fst fs = [results_dir_ex, prior_file]
   \<Longrightarrow> glob_results fs results_dir_ex = [prior_file]"
  by (simp add: glob_results_def results_dir_ex_def prior_file_def path_join_def
        matches_pattern_def results_prefix_def json_suffix_def ends_with_def slash_def asc_def)

lemma find_latest_prior:
  "map_of fs results_dir_ex = Some Dir \<Longrightarrow> map fst fs = [results_dir_ex, prior_file]
   \<Longrightarrow> find_latest_result_file fs results_dir_ex = Some prior_file"
  by (simp add: find_latest_result_file_def glob_prior_file path_exists_def)

text \<open>
  C2. When the previous snapshot is read, the two dictionaries hold the urls of the
  results with status success and a positive count (the last such result of a url gives
  its entry). The urls of \<^verbatim>\<open>new_properties\<close> are exactly those in the current dictionary
  and not in the previous one, with change type new, and those in both with a greater
  current count, with change type increased, each once;
  \<^verbatim>\<open>has_new_properties\<close>, and with it the decision to send, holds exactly when there
  is such a url. A url outside the current dictionary, or in both with a count not
  greater, is not flagged. For a previous snapshot of one room at A and two at B and a
  run with one at A, three at B and one at C, the decision holds C as new and B as
  increased, not A, and notifies.
\<close>

theorem compare_results_newly_vacant:
  "(load_previous fs f = Inr ps \<longrightarrow>
      (\<forall>u. (vacant_map cs u \<noteq> None)
              = (\<exists>r \<in> set cs. url r = u \<and> status r = Success \<and> 0 < total_vacant r))
      \<and> (\<forall>u. vacant_map cs u
              = (case filter (\<lambda>r. url r = u \<and> status r = Success \<and> 0 < total_vacant r) cs of
                   [] \<Rightarrow> None
                 | x # xs \<Rightarrow> Some (entry_of (last (x # xs)))))
      \<and> set (map np_url (new_properties (compare_results rank fs cs f)))
          = {u. vacant_map cs u \<noteq> None \<and> vacant_map ps u = None}
            \<union> {u. \<exists>ce pe. vacant_map cs u = Some ce \<and> vacant_map ps u = Some pe
                    \<and> ve_total_vacant pe < ve_total_vacant ce}
      \<and> distinct (map np_url (new_properties (compare_results rank fs cs f)))
      \<and> (\<forall>np \<in> set (new_properties (compare_results rank fs cs f)).
            np_change_type np = (if vacant_map ps (np_url np) = None then New else Increased)
            \<and> (\<exists>ce. vacant_map cs (np_url np) = Some ce
                  \<and> np_property_name np = ve_property_name ce
                  \<and> np_total_vacant np = ve_total_vacant ce
                  \<and> np_vacant_rooms np = ve_vacant_rooms ce))
      \<and> has_new_properties (compare_results rank fs cs f)
          = (set (map np_url (new_properties (compare_results rank fs cs f))) \<noteq> {})
      \<and> (\<forall>u. vacant_map cs u = None
            \<longrightarrow> u \<notin> set (map np_url (new_properties (compare_results rank fs cs f))))
      \<and> (\<forall>u ce pe. vacant_map cs u = Some ce \<and> vacant_map ps u = Some pe
              \<and> ve_total_vacant ce \<le> ve_total_vacant pe
            \<longrightarrow> u \<notin> set (map np_url (new_properties (compare_results rank fs cs f))))
      \<and> (find_latest_result_file fs d = Some f \<longrightarrow>
            should_send (should_send_email rank fs cs d)
              = (set (map np_url (new_properties (compare_results rank fs cs f))) \<noteq> {})))
   \<and> map (\<lambda>np. (np_url np, np_change_type np))
         (new_properties (compare_results rank fs_prior current_abc prior_file))
       = [(url_c, New), (url_b, Increased)]
   \<and> has_new_properties (compare_results rank fs_prior current_abc prior_file)
   \<and> should_send (should_send_email rank fs_prior current_abc results_dir_ex)"
proof -
  have ex: "should_send (should_send_email rank fs_prior current_abc results_dir_ex)"
  proof -
    have "find_latest_result_file fs_prior results_dir_ex = Some prior_file"
      using prior_file_not_dir by (intro find_latest_prior) (simp_all add: fs_prior_def)
    from should_send_email_latest [OF this, of rank current_abc] example_diff [of rank]
    show ?thesis by simp
  qed
  have a1: "\<forall>u. (vacant_map cs u \<noteq> None)
              = (\<exists>r \<in> set cs. url r = u \<and> status r = Success \<and> 0 < total_vacant r)"
    by (intro allI) (rule vacant_map_dom)
  have a2: "\<forall>u. vacant_map cs u
              = (case filter (\<lambda>r. url r = u \<and> status r = Success \<and> 0 < total_vacant r) cs of
                   [] \<Rightarrow> None
                 | x # xs \<Rightarrow> Some (entry_of (last (x # xs))))"
    by (intro allI) (rule vacant_map_last)
  note a3 = compare_results_flagged [of fs f ps rank cs]
  note a4 = compare_results_distinct [of fs f ps rank cs]
  have a5: "\<forall>np \<in> set (new_properties (compare_results rank fs cs f)).
            np_change_type np = (if vacant_map ps (np_url np) = None then New else Increased)
            \<and> (\<exists>ce. vacant_map cs (np_url np) = Some ce
                  \<and> np_property_name np = ve_property_name ce
                  \<and> np_total_vacant np = ve_total_vacant ce
                  \<and> np_vacant_rooms np = ve_vacant_rooms ce)"
    if "load_previous fs f = Inr ps"
    using compare_results_entry [OF that, of _ rank cs] by blast
  note a6 = compare_results_notify [of fs f ps rank cs]
  have a7: "\<forall>u. vacant_map cs u = None
            \<longrightarrow> u \<notin> set (map np_url (new_properties (compare_results rank fs cs f)))"
    if "load_previous fs f = Inr ps"
    unfolding a3 [OF that] by simp
  have a8: "\<forall>u ce pe. vacant_map cs u = Some ce \<and> vacant_map ps u = Some pe
              \<and> ve_total_vacant ce \<le> ve_total_vacant pe
            \<longrightarrow> u \<notin> set (map np_url (new_properties (compare_results rank fs cs f)))"
    if "load_previous fs f = Inr ps"
    unfolding a3 [OF that] by simp
  have a9: "should_send (should_send_email rank fs cs d)
              = (set (map np_url (new_properties (compare_results rank fs cs f))) \<noteq> {})"
    if "load_previous fs f = Inr ps" "find_latest_result_file fs d = Some f"
    using should_send_email_latest [OF that(2), of rank cs] a6 [OF that(1)] by simp
  note e = example_diff [of rank]
  show ?thesis
    apply (intro conjI impI)
    subgoal by (rule a1)
    subgoal by (rule a2)
    subgoal by (erule a3)
    subgoal by (erule a4)
    subgoal by (erule a5)
    subgoal by (erule a6)
    subgoal by (erule a7)
    subgoal by (erule a8)
    subgoal by (rule a9)
    subgoal using e by (rule conjunct1)
    subgoal using e by (rule conjunct2)
    subgoal by (rule ex)
    done
qed


theorem compare_results_newly_vacant_witness:
  "load_previous fs_prior prior_file = Inr prior_results
   \<and> find_latest_result_file fs_prior results_dir_ex = Some prior_file
   \<and> vacant_map current_abc url_a = Some (entry_of (vacant_result url_a 1))
   \<and> vacant_map prior_results url_a = Some (entry_of (vacant_result url_a 1))
   \<and> ve_total_vacant (entry_of (vacant_result url_a 1)) = 1
   \<and> url_a \<notin> set (map np_url
         (new_properties (compare_results length fs_prior current_abc prior_file)))
   \<and> distinct (map np_url
         (new_properties (compare_results length fs_prior current_abc prior_file)))
   \<and> should_send (should_send_email length fs_prior current_abc results_dir_ex)
       = (set (map np_url
            (new_properties (compare_results length fs_prior current_abc prior_file))) \<noteq> {})"
proof -
  have h1: "load_previous fs_prior prior_file = Inr prior_results"
    by (rule load_prior)
  have h2: "find_latest_result_file fs_prior results_dir_ex = Some prior_file"
    using prior_file_not_dir by (intro find_latest_prior) (simp_all add: fs_prior_def)
  have h3: "vacant_map current_abc url_a = Some (entry_of (vacant_result url_a 1))"
    by (simp add: vacant_map_def vp_current)
  have h4: "vacant_map prior_results url_a = Some (entry_of (vacant_result url_a 1))"
    by (simp add: vacant_map_def vp_prior)
  have h5: "ve_total_vacant (entry_of (vacant_result url_a 1)) = 1"
    by (simp add: entry_of_def vacant_result_def)
  note t = compare_results_newly_vacant [where fs = fs_prior and f = prior_file
      and ps = prior_results and cs = current_abc and rank = length and d = results_dir_ex]
  note g = mp [OF conjunct1 [OF t] h1]
  note g3 = g [THEN conjunct2, THEN conjunct2, THEN conjunct2]
  note g7 = g3 [THEN conjunct2, THEN conjunct2, THEN conjunct2, THEN conjunct2]
  have c4: "distinct (map np_url
         (new_properties (compare_results length fs_prior current_abc prior_file)))"
    by (rule g3 [THEN conjunct1])
  have c8: "url_a \<notin> set (map np_url
         (new_properties (compare_results length fs_prior current_abc prior_file)))"
    using g7 [THEN conjunct1, rule_format, of url_a "entry_of (vacant_result url_a 1)"
        "entry_of (vacant_result url_a 1)"] h3 h4
    by simp
  have c9: "should_send (should_send_email length fs_prior current_abc results_dir_ex)
       = (set (map np_url
            (new_properties (compare_results length fs_prior current_abc prior_file))) \<noteq> {})"
    by (rule mp [OF g7 [THEN conjunct2] h2])
  from h1 h2 h3 h4 h5 c4 c8 c9 show ?thesis by (intro conjI)
qed

lemma load_previous_fails:
  "(\<exists>e. load_previous fs f = Inl e) = (\<forall>s. map_of fs f \<noteq> Some (File (Json_doc s)))"
  by (auto simp: load_previous_def split: option.splits node.splits content.splits)

text \<open>
  C3. When reading or decoding the previous snapshot raises (the file is missing, is a
  directory or does not hold a JSON snapshot), the comparison returns
  \<^verbatim>\<open>has_new_properties\<close> true with the exception recorded in the summary, and the
  decision is to send.
\<close>

theorem compare_results_fails_open:
  "(load_previous fs f = Inl e \<longrightarrow>
      has_new_properties (compare_results rank fs cs f)
      \<and> cs_error (comparison_summary (compare_results rank fs cs f)) = Some e
      \<and> (find_latest_result_file fs d = Some f \<longrightarrow>
            should_send (should_send_email rank fs cs d)
            \<and> comparison (should_send_email rank fs cs d)
                = Some (compare_results rank fs cs f)))
   \<and> (\<exists>e. load_previous fs f = Inl e) = (\<forall>s. map_of fs f \<noteq> Some (File (Json_doc s)))"
proof -
  have a: "has_new_properties (compare_results rank fs cs f)
      \<and> cs_error (comparison_summary (compare_results rank fs cs f)) = Some e"
    if "load_previous fs f = Inl e"
    using that by (simp add: compare_results_def)
  have b: "should_send (should_send_email rank fs cs d)
            \<and> comparison (should_send_email rank fs cs d)
                = Some (compare_results rank fs cs f)"
    if "load_previous fs f = Inl e" "find_latest_result_file fs d = Some f"
    using should_send_email_latest [OF that(2), of rank cs] a [OF that(1)] by simp
  show ?thesis
    using a b load_previous_fails [of fs f] by blast
qed

theorem compare_results_fails_open_witness:
  "load_previous fs_garbled prior_file = Inl JSONDecodeError
   \<and> find_latest_result_file fs_garbled results_dir_ex = Some prior_file
   \<and> has_new_properties (compare_results length fs_garbled current_abc prior_file)
   \<and> cs_error (comparison_summary (compare_results length fs_garbled current_abc prior_file))
       = Some JSONDecodeError
   \<and> should_send (should_send_email length fs_garbled current_abc results_dir_ex)"
proof -
  have h1: "load_previous fs_garbled prior_file = Inl JSONDecodeError"
    using prior_file_not_dir by (simp add: load_previous_def fs_garbled_def)
  have h2: "find_latest_result_file fs_garbled results_dir_ex = Some prior_file"
    using prior_file_not_dir by (intro find_latest_prior) (simp_all add: fs_garbled_def)
  from h1 h2
    compare_results_fails_open [where fs = fs_garbled and f = prior_file
      and e = JSONDecodeError and cs = current_abc and rank = length and d = results_dir_ex]
  show ?thesis by simp
qed

section \<open>Properties of saving\<close>

lemma dirname_join: "slash \<notin> set n \<Longrightarrow> dirname (path_join d n) = d"
proof -
  assume n: "slash \<notin> set n"
  then have "dropWhile (\<lambda>c. c \<noteq> slash) (rev n @ slash # rev d) = slash # rev d"
    by (subst dropWhile_append2) auto
  then show ?thesis by (simp add: dirname_def path_join_def)
qed

lemma path_join_neq: "path_join d n \<noteq> d"
proof
  assume "path_join d n = d"
  then have "length (path_join d n) = length d" by simp
  then show False by (simp add: path_join_def)
qed

lemma mkdir_exist_ok_post:
  assumes "mkdir_exist_ok fs p = Inr fs'"
  shows "map_of fs' p = Some Dir
     \<and> (\<forall>q. map_of fs q \<noteq> None \<or> q \<noteq> p \<longrightarrow> map_of fs' q = map_of fs q)"
proof (cases "map_of fs p")
  case None
  with assms have "fs' = fs @ [(p, Dir)]"
    by (simp add: mkdir_exist_ok_def split: if_splits)
  with None show ?thesis by (auto simp: map_add_def split: option.splits)
next
  case (Some nd)
  with assms show ?thesis
    by (cases nd) (simp_all add: mkdir_exist_ok_def)
qed

lemma length_dirname_le: "length (dirname p) \<le> length p"
proof -
  have "length (dropWhile (\<lambda>c. c \<noteq> slash) (rev p)) \<le> length p"
    using length_dropWhile_le [of "\<lambda>c. c \<noteq> slash" "rev p"] by simp
  then show ?thesis by (simp add: dirname_def)
qed

lemma makedirs_post:
  "makedirs fs p = Inr fs' \<Longrightarrow>
   map_of fs' p = Some Dir
   \<and> (\<forall>q. map_of fs q \<noteq> None \<or> length p < length q \<longrightarrow> map_of fs' q = map_of fs q)"
proof (induction fs p arbitrary: fs' rule: makedirs.induct)
  case (1 fs name)
  show ?case
  proof (cases "dirname name \<noteq> [] \<and> basename name \<noteq> [] \<and> \<not> path_exists fs (dirname name)")
    case False
    have "makedirs fs name = mkdir_exist_ok fs name"
      by (subst makedirs.simps, subst if_not_P [OF False], rule refl)
    then have "mkdir_exist_ok fs name = Inr fs'" using "1.prems" by simp
    from mkdir_exist_ok_post [OF this] show ?thesis by auto
  next
    case True
    have eq: "makedirs fs name
        = (case makedirs fs (dirname name) of
              Inl FileExistsError \<Rightarrow> mkdir_exist_ok fs name
            | Inl e \<Rightarrow> Inl e
            | Inr fs' \<Rightarrow> mkdir_exist_ok fs' name)"
      by (subst makedirs.simps, subst if_P [OF True], rule refl)
    show ?thesis
    proof (cases "makedirs fs (dirname name)")
      case (Inl e)
      then have "mkdir_exist_ok fs name = Inr fs'"
        using "1.prems" eq by (cases e) simp_all
      from mkdir_exist_ok_post [OF this] show ?thesis by auto
    next
      case (Inr fs1)
      then have m: "mkdir_exist_ok fs1 name = Inr fs'"
        using "1.prems" eq by simp
      from "1.IH" [OF True Inr]
      have k: "\<forall>q. map_of fs q \<noteq> None \<or> length (dirname name) < length q
                 \<longrightarrow> map_of fs1 q = map_of fs q"
        by simp
      have "map_of fs' q = map_of fs q"
        if "map_of fs q \<noteq> None \<or> length name < length q" for q
      proof -
        have a: "map_of fs1 q = map_of fs q"
          using that k length_dirname_le [of name] by auto
        have "map_of fs1 q \<noteq> None \<or> q \<noteq> name" using that a by auto
        with mkdir_exist_ok_post [OF m] have "map_of fs' q = map_of fs1 q" by blast
        with a show ?thesis by simp
      qed
      with mkdir_exist_ok_post [OF m] show ?thesis by blast
    qed
  qed
qed

lemma write_file_post:
  "write_file fs p c = Inr fs' \<Longrightarrow> map_of fs' = (map_of fs)(p \<mapsto> File c)"
  by (auto simp: write_file_def update_conv' split: option.splits node.splits if_splits)

lemma save_to_frame: "q \<noteq> out \<Longrightarrow> map_of (save_to clk fs rs fmt out) q = map_of fs q"
  by (auto simp: save_to_def dest: write_file_post split: option.splits sum.splits)

lemma save_to_json:
  assumes "map_of fs out \<noteq> Some Dir" "dirname out = [] \<or> map_of fs (dirname out) = Some Dir"
  shows "map_of (save_to clk fs rs Json out) out
     = Some (File (Json_doc \<lparr>timestamp = now_iso clk, total_checked = int (length rs),
          total_vacant_rooms = sum_list (map total_vacant (filter (\<lambda>r. status r = Success) rs)),
          results = rs\<rparr>))"
proof -
  let ?c = "Json_doc \<lparr>timestamp = now_iso clk, total_checked = int (length rs),
          total_vacant_rooms = sum_list (map total_vacant (filter (\<lambda>r. status r = Success) rs)),
          results = rs\<rparr>"
  have "write_file fs out ?c = Inr (AList.update out (File ?c) fs)"
    using assms by (auto simp: write_file_def split: option.splits node.splits)
  then show ?thesis
    by (simp add: save_to_def save_content_def update_conv')
qed


lemma snapshot_name_no_slash:
  "slash \<notin> set (now_stamp clk) \<Longrightarrow> slash \<notin> set (snapshot_name clk Json)"
  by (simp add: snapshot_name_def results_prefix_def asc_def slash_def)

lemma dirname_app_results: "dirname (asc ''/app/results'') = asc ''/app''"
  by (simp add: dirname_def asc_def slash_def)

lemma dirname_results: "dirname (asc ''results'') = []"
  by (simp add: dirname_def asc_def slash_def)

lemma makedirs_default_succeeds:
  assumes "path_exists fs (asc ''/app'') \<longrightarrow> map_of fs (asc ''/app'') = Some Dir"
    and "\<forall>c. map_of fs (default_results_dir fs) \<noteq> Some (File c)"
  shows "\<exists>fs'. makedirs fs (default_results_dir fs) = Inr fs'"
proof (cases "path_exists fs (asc ''/app'')")
  case True
  then have d: "default_results_dir fs = asc ''/app/results''"
    by (simp add: default_results_dir_def)
  have "makedirs fs (asc ''/app/results'') = mkdir_exist_ok fs (asc ''/app/results'')"
    using True by (subst makedirs.simps) (simp add: dirname_app_results)
  moreover have "\<exists>fs'. mkdir_exist_ok fs (asc ''/app/results'') = Inr fs'"
    using assms True d
    by (auto simp: mkdir_exist_ok_def dirname_app_results split: option.splits node.splits)
  ultimately show ?thesis using d by simp
next
  case False
  then have d: "default_results_dir fs = asc ''results''"
    by (simp add: default_results_dir_def)
  have "makedirs fs (asc ''results'') = mkdir_exist_ok fs (asc ''results'')"
    by (subst makedirs.simps) (simp add: dirname_results)
  moreover have "\<exists>fs'. mkdir_exist_ok fs (asc ''results'') = Inr fs'"
    using assms d
    by (auto simp: mkdir_exist_ok_def dirname_results split: option.splits node.splits)
  ultimately show ?thesis using d by simp
qed

text \<open>
  C9, as the code has it. A save without an output path that returns leaves the default
  directory in place, created when it was absent, and changes no file under another
  name than the computed one; in the JSON format the file of the computed name then
  holds the snapshot of this run, whatever it held before. The save returns whenever the
  directory can be made.
\<close>

theorem save_results_frame:
  "(save_results clk fs rs output_format None = Inr fs' \<longrightarrow>
      map_of fs' (default_results_dir fs) = Some Dir
      \<and> (\<forall>p. p \<noteq> path_join (default_results_dir fs) (snapshot_name clk output_format)
               \<and> map_of fs p \<noteq> None
            \<longrightarrow> map_of fs' p = map_of fs p)
      \<and> (output_format = Json \<and> slash \<notin> set (now_stamp clk)
          \<and> map_of fs (path_join (default_results_dir fs) (snapshot_name clk output_format))
              \<noteq> Some Dir
         \<longrightarrow> map_of fs' (path_join (default_results_dir fs) (snapshot_name clk output_format))
              = Some (File (Json_doc
                  \<lparr>timestamp = now_iso clk, total_checked = int (length rs),
                   total_vacant_rooms =
                     sum_list (map total_vacant (filter (\<lambda>r. status r = Success) rs)),
                   results = rs\<rparr>))))
   \<and> ((path_exists fs (asc ''/app'') \<longrightarrow> map_of fs (asc ''/app'') = Some Dir)
       \<and> (\<forall>c. map_of fs (default_results_dir fs) \<noteq> Some (File c))
      \<longrightarrow> (\<exists>fs2. save_results clk fs rs output_format None = Inr fs2))"
proof -
  let ?d = "default_results_dir fs"
  let ?out = "path_join ?d (snapshot_name clk output_format)"
  have sv: "save_results clk fs rs output_format None
      = (case makedirs fs ?d of Inl e \<Rightarrow> Inl e
         | Inr fs1 \<Rightarrow> Inr (save_to clk fs1 rs output_format ?out))"
    by (simp add: save_results_def)
  have part1: "map_of fs' ?d = Some Dir
      \<and> (\<forall>p. p \<noteq> ?out \<and> map_of fs p \<noteq> None \<longrightarrow> map_of fs' p = map_of fs p)
      \<and> (output_format = Json \<and> slash \<notin> set (now_stamp clk) \<and> map_of fs ?out \<noteq> Some Dir
         \<longrightarrow> map_of fs' ?out
              = Some (File (Json_doc
                  \<lparr>timestamp = now_iso clk, total_checked = int (length rs),
                   total_vacant_rooms =
                     sum_list (map total_vacant (filter (\<lambda>r. status r = Success) rs)),
                   results = rs\<rparr>)))"
    if s: "save_results clk fs rs output_format None = Inr fs'"
  proof -
    from s sv obtain fs1 where m: "makedirs fs ?d = Inr fs1"
      and f: "fs' = save_to clk fs1 rs output_format ?out"
      by (cases "makedirs fs ?d") auto
    note post = makedirs_post [OF m]
    have longer: "length ?d < length ?out" by (simp add: path_join_def)
    have a: "map_of fs' ?d = Some Dir"
      using post path_join_neq [of ?d "snapshot_name clk output_format"]
      by (simp add: f save_to_frame)
    have b: "map_of fs' p = map_of fs p" if "p \<noteq> ?out \<and> map_of fs p \<noteq> None" for p
      using post that by (simp add: f save_to_frame)
    have c: "map_of fs' ?out
              = Some (File (Json_doc
                  \<lparr>timestamp = now_iso clk, total_checked = int (length rs),
                   total_vacant_rooms =
                     sum_list (map total_vacant (filter (\<lambda>r. status r = Success) rs)),
                   results = rs\<rparr>))"
      if j: "output_format = Json \<and> slash \<notin> set (now_stamp clk) \<and> map_of fs ?out \<noteq> Some Dir"
    proof -
      from j have fmt: "output_format = Json" and ns: "slash \<notin> set (now_stamp clk)"
        and nd: "map_of fs ?out \<noteq> Some Dir"
        by auto
      have "map_of fs1 ?out = map_of fs ?out"
        by (rule post [THEN conjunct2, rule_format]) (rule disjI2, rule longer)
      with nd have o1: "map_of fs1 ?out \<noteq> Some Dir" by simp
      have "dirname ?out = ?d"
        using snapshot_name_no_slash [OF ns] by (simp add: dirname_join fmt)
      then have o2: "dirname ?out = [] \<or> map_of fs1 (dirname ?out) = Some Dir"
        using post by simp
      from save_to_json [OF o1 o2, of clk rs] show ?thesis
        by (simp only: f fmt)
    qed
    show ?thesis
    proof (intro conjI allI impI)
      show "map_of fs' ?d = Some Dir" by (rule a)
    next
      fix p assume "p \<noteq> ?out \<and> map_of fs p \<noteq> None"
      then show "map_of fs' p = map_of fs p" by (rule b)
    next
      assume "output_format = Json \<and> slash \<notin> set (now_stamp clk)
        \<and> map_of fs ?out \<noteq> Some Dir"
      then show "map_of fs' ?out
              = Some (File (Json_doc
                  \<lparr>timestamp = now_iso clk, total_checked = int (length rs),
                   total_vacant_rooms =
                     sum_list (map total_vacant (filter (\<lambda>r. status r = Success) rs)),
                   results = rs\<rparr>))"
        by (rule c)
    qed
  qed
  have part2: "\<exists>fs2. save_results clk fs rs output_format None = Inr fs2"
    if "(path_exists fs (asc ''/app'') \<longrightarrow> map_of fs (asc ''/app'') = Some Dir)
       \<and> (\<forall>c. map_of fs ?d \<noteq> Some (File c))"
    using makedirs_default_succeeds [of fs] that sv by auto
  show ?thesis
    apply (intro conjI impI)
    subgoal by (drule part1) (erule conjunct1)
    subgoal by (drule part1) (erule conjunct1 [OF conjunct2])
    subgoal by (drule part1) (erule mp [OF conjunct2 [OF conjunct2]])
    subgoal by (erule part2)
    done
qed


lemma app_absent: "\<not> path_exists fs_prior (asc ''/app'')"
  by (simp add: path_exists_def fs_prior_def results_dir_ex_def prior_file_def path_join_def
        asc_def)

lemma default_dir_prior: "default_results_dir fs_prior = results_dir_ex"
  using app_absent by (simp add: default_results_dir_def results_dir_ex_def)

lemma makedirs_prior: "makedirs fs_prior results_dir_ex = Inr fs_prior"
  by (subst makedirs.simps)
     (simp add: results_dir_ex_def dirname_results mkdir_exist_ok_def fs_prior_def)

lemma current_abc_totals:
  "int (length current_abc) = 3"
  "sum_list (map total_vacant (filter (\<lambda>r. status r = Success) current_abc)) = 5"
  by (simp_all add: current_abc_def vacant_result_def)

lemma save_on_prior:
  assumes "slash \<notin> set (now_stamp clk)"
  shows "save_results clk fs_prior current_abc Json None
     = Inr (AList.update (path_join results_dir_ex (snapshot_name clk Json))
              (File (Json_doc \<lparr>timestamp = now_iso clk, total_checked = 3,
                 total_vacant_rooms = 5, results = current_abc\<rparr>)) fs_prior)"
proof -
  let ?out = "path_join results_dir_ex (snapshot_name clk Json)"
  have d: "dirname ?out = results_dir_ex"
    using snapshot_name_no_slash [OF assms] by (rule dirname_join)
  have nd: "map_of fs_prior ?out \<noteq> Some Dir"
    using path_join_neq [of results_dir_ex "snapshot_name clk Json"]
    by (simp add: fs_prior_def)
  have "map_of fs_prior results_dir_ex = Some Dir" by (simp add: fs_prior_def)
  with d nd have "write_file fs_prior ?out c = Inr (AList.update ?out (File c) fs_prior)" for c
    by (auto simp: write_file_def split: option.splits node.splits)
  then show ?thesis
    by (simp add: save_results_def default_dir_prior makedirs_prior save_to_def
          save_content_def current_abc_totals)
qed

lemma stamps_no_slash:
  "slash \<notin> set (now_stamp clock_same)" "slash \<notin> set (now_stamp clock_later)"
  by (simp_all add: clock_same_def clock_later_def asc_def slash_def)

lemma out_same: "path_join results_dir_ex (snapshot_name clock_same Json) = prior_file"
  by (simp add: snapshot_name_def clock_same_def prior_file_def results_prefix_def asc_def)

lemma out_later: "path_join results_dir_ex (snapshot_name clock_later Json) = later_file"
  by (simp add: snapshot_name_def clock_later_def later_file_def results_prefix_def asc_def)

lemma later_file_neq: "later_file \<noteq> results_dir_ex" "later_file \<noteq> prior_file"
  "prior_file \<noteq> later_file"
  by (simp_all add: later_file_def prior_file_def path_join_def asc_def)

text \<open>
  C9 as stated fails: a run that ends within the second of the previous snapshot computes
  the same name, and its save replaces the previous snapshot.
\<close>

theorem save_overwrites_same_name:
  "map_of fs_prior prior_file = Some (File (Json_doc prior_snapshot))
   \<and> save_results clock_same fs_prior current_abc Json None
       = Inr [(results_dir_ex, Dir), (prior_file, File (Json_doc snapshot_abc))]
   \<and> prior_snapshot \<noteq> snapshot_abc"
proof -
  have a: "map_of fs_prior prior_file = Some (File (Json_doc prior_snapshot))"
    using prior_file_not_dir by (simp add: fs_prior_def)
  have b: "save_results clock_same fs_prior current_abc Json None
       = Inr [(results_dir_ex, Dir), (prior_file, File (Json_doc snapshot_abc))]"
  proof -
    have s2: "AList.update prior_file (File c) fs_prior
        = [(results_dir_ex, Dir), (prior_file, File c)]" for c
      using prior_file_not_dir by (simp add: fs_prior_def)
    have s3: "\<lparr>timestamp = now_iso clock_same, total_checked = 3, total_vacant_rooms = 5,
        results = current_abc\<rparr> = snapshot_abc"
      by (simp add: snapshot_abc_def clock_same_def)
    show ?thesis
      by (simp only: save_on_prior [OF stamps_no_slash(1), unfolded out_same] s2 s3)
  qed
  have c: "prior_snapshot \<noteq> snapshot_abc"
    by (simp add: prior_snapshot_def snapshot_abc_def)
  from a b c show ?thesis by (intro conjI)
qed

theorem save_results_frame_witness:
  "save_results clock_later fs_prior current_abc Json None = Inr fs_later
   \<and> map_of fs_later results_dir_ex = Some Dir
   \<and> prior_file \<noteq> later_file
   \<and> map_of fs_prior prior_file = Some (File (Json_doc prior_snapshot))
   \<and> map_of fs_later prior_file = Some (File (Json_doc prior_snapshot))
   \<and> slash \<notin> set (now_stamp clock_later)
   \<and> map_of fs_prior later_file = None
   \<and> map_of fs_later later_file = Some (File (Json_doc snapshot_later))
   \<and> map_of [] (default_results_dir []) = (None :: node option)
   \<and> (\<exists>fs2. save_results clock_later [] current_abc Json None = Inr fs2)"
proof -
  have h0: "save_results clock_later fs_prior current_abc Json None = Inr fs_later"
  proof -
    have s2: "AList.update later_file (File c) fs_prior
        = [(results_dir_ex, Dir), (prior_file, File (Json_doc prior_snapshot)),
           (later_file, File c)]" for c
      using later_file_neq prior_file_not_dir by (simp add: fs_prior_def)
    have s3: "\<lparr>timestamp = now_iso clock_later, total_checked = 3, total_vacant_rooms = 5,
        results = current_abc\<rparr> = snapshot_later"
      by (simp add: snapshot_later_def clock_later_def)
    show ?thesis
      by (simp only: save_on_prior [OF stamps_no_slash(2), unfolded out_later] s2 s3
            fs_later_def)
  qed
  have h1: "map_of fs_prior prior_file = Some (File (Json_doc prior_snapshot))"
    using prior_file_not_dir by (simp add: fs_prior_def)
  have h2: "map_of fs_prior later_file = None"
    using later_file_neq by (simp add: fs_prior_def)
  note t = save_results_frame [where clk = clock_later and fs = fs_prior and rs = current_abc
      and output_format = Json and fs' = fs_later]
  note g = mp [OF conjunct1 [OF t] h0, unfolded default_dir_prior out_later]
  have c1: "map_of fs_later results_dir_ex = Some Dir"
    by (rule g [THEN conjunct1])
  have c2: "map_of fs_later prior_file = Some (File (Json_doc prior_snapshot))"
    using g [THEN conjunct2, THEN conjunct1, rule_format, of prior_file] later_file_neq h1
    by simp
  have c3: "map_of fs_later later_file = Some (File (Json_doc snapshot_later))"
    using g [THEN conjunct2, THEN conjunct2] stamps_no_slash(2) h2
    by (simp add: current_abc_totals snapshot_later_def clock_later_def)
  note t0 = save_results_frame [where clk = clock_later and fs = "[]" and rs = current_abc
      and output_format = Json and fs' = fs_later]
  have c4: "\<exists>fs2. save_results clock_later [] current_abc Json None = Inr fs2"
    by (rule mp [OF t0 [THEN conjunct2]]) (simp add: path_exists_def)
  from h0 c1 later_file_neq(3) h1 c2 stamps_no_slash(2) h2 c3 c4 show ?thesis by simp
qed

section \<open>Properties of the lookup of the latest snapshot\<close>

lemma isdigit_low: "c < 1632 \<Longrightarrow> isdigit c = (48 \<le> c \<and> c \<le> 57)"
  by (auto simp: isdigit_def digit_runs_def)

lemma basename_join: "slash \<notin> set n \<Longrightarrow> basename (path_join d n) = n"
proof -
  assume n: "slash \<notin> set n"
  then have "takeWhile (\<lambda>c. c \<noteq> slash) (rev n @ slash # rev d) = rev n"
    by (subst takeWhile_append2) auto
  then show ?thesis by (simp add: basename_def path_join_def)
qed

lemma str_less_irrefl: "\<not> str_less a a"
  by (induction a) simp_all

lemma str_less_trans: "str_less a b \<Longrightarrow> str_less b c \<Longrightarrow> str_less a c"
proof (induction a arbitrary: b c)
  case Nil
  then show ?case by (cases b; cases c) simp_all
next
  case (Cons x xs)
  then show ?case by (cases b; cases c) auto
qed

lemma str_less_total: "str_less a b \<or> a = b \<or> str_less b a"
  by (induction a b rule: str_less.induct) auto

lemma str_not_less_trans:
  "\<not> str_less a b \<Longrightarrow> \<not> str_less b c \<Longrightarrow> \<not> str_less a c"
  using str_less_total [of b a] str_less_total [of c b] str_less_trans [of c b a]
    str_less_irrefl [of a] str_less_trans [of a c b] str_less_trans [of b a c]
  by blast

lemma max_by_greatest:
  "\<not> str_less (k (max_by k b xs)) (k b)
   \<and> (\<forall>x \<in> set xs. \<not> str_less (k (max_by k b xs)) (k x))"
proof (induction xs arbitrary: b)
  case Nil
  show ?case by (simp add: str_less_irrefl)
next
  case (Cons x xs)
  show ?case
  proof (cases "str_less (k b) (k x)")
    case True
    have "\<not> str_less (k x) (k b)"
      using True str_less_trans [of "k b" "k x" "k b"] str_less_irrefl by blast
    then have "\<not> str_less (k (max_by k x xs)) (k b)"
      using Cons.IH [of x] str_not_less_trans by blast
    then show ?thesis using True Cons.IH [of x] by simp
  next
    case False
    have "\<not> str_less (k (max_by k b xs)) (k x)"
      using False Cons.IH [of b] str_not_less_trans by blast
    then show ?thesis using False Cons.IH [of b] by simp
  qed
qed

lemma find_latest_none:
  "(find_latest_result_file fs d = None) = (\<not> path_exists fs d \<or> glob_results fs d = [])"
  by (simp add: find_latest_result_file_def split: list.splits)

lemma find_latest_greatest:
  assumes "find_latest_result_file fs d = Some f"
  shows "\<forall>g \<in> set (glob_results fs d). \<not> str_less (extract_timestamp f) (extract_timestamp g)"
proof -
  from assms obtain b xs where g: "glob_results fs d = b # xs"
    and f: "f = max_by extract_timestamp b xs"
    by (auto simp: find_latest_result_file_def split: if_splits list.splits)
  show ?thesis using max_by_greatest [of extract_timestamp b xs] by (simp add: g f)
qed

lemma glob_results_shape:
  assumes "p \<in> set (glob_results fs d)"
  shows "\<exists>n. p = path_join d n \<and> matches_pattern n \<and> slash \<notin> set n \<and> map_of fs p \<noteq> None"
proof -
  from assms have m: "p \<in> set (map fst fs)" and st: "starts_with (d @ [slash]) p"
    and ns: "slash \<notin> set (drop (length d + 1) p)"
    and mp: "matches_pattern (drop (length d + 1) p)"
    by (auto simp: glob_results_def split: if_splits)
  have pre: "starts_with a b \<Longrightarrow> b = a @ drop (length a) b" for a b :: ustr
    by (induction a b rule: starts_with.induct) auto
  from pre [OF st] have "p = path_join d (drop (length d + 1) p)"
    by (simp add: path_join_def)
  moreover from m have "map_of fs p \<noteq> None" by (simp add: map_of_eq_None_iff)
  ultimately show ?thesis using ns mp by blast
qed

lemma reps_split:
  "r \<in> set (reps p lo hi s) \<Longrightarrow>
   \<exists>ds. s = ds @ r \<and> (\<forall>c \<in> set ds. p c) \<and> lo \<le> length ds
        \<and> (\<forall>h. hi = Some h \<longrightarrow> length ds \<le> h)"
proof (induction s arbitrary: lo hi)
  case Nil
  then show ?case by (auto split: if_splits)
next
  case (Cons c cs)
  from Cons.prems have "(p c \<and> hi \<noteq> Some 0
        \<and> r \<in> set (reps p (lo - 1) (map_option (\<lambda>h. h - 1) hi) cs))
      \<or> (lo = 0 \<and> r = c # cs)"
    by (auto split: if_splits)
  then show ?case
  proof
    assume a: "p c \<and> hi \<noteq> Some 0 \<and> r \<in> set (reps p (lo - 1) (map_option (\<lambda>h. h - 1) hi) cs)"
    then obtain ds where ds: "cs = ds @ r" "\<forall>c \<in> set ds. p c" "lo - 1 \<le> length ds"
      "\<forall>h. map_option (\<lambda>h. h - 1) hi = Some h \<longrightarrow> length ds \<le> h"
      using Cons.IH [of "lo - 1" "map_option (\<lambda>h. h - 1) hi"] by blast
    have "\<forall>h. hi = Some h \<longrightarrow> length (c # ds) \<le> h"
      using ds(4) a by (cases hi) auto
    then show ?thesis
      using ds a by (intro exI [of _ "c # ds"]) auto
  next
    assume "lo = 0 \<and> r = c # cs"
    then show ?thesis by (intro exI [of _ "[]"]) simp
  qed
qed

lemma stamp_rx_split:
  assumes "r2 \<in> set (rems stamp_rx r1)"
  shows "\<exists>ds1 ds2. r1 = ds1 @ [95] @ ds2 @ r2 \<and> length ds1 = 8 \<and> length ds2 = 6
           \<and> (\<forall>c \<in> set ds1. isdigit c) \<and> (\<forall>c \<in> set ds2. isdigit c)"
proof -
  from assms obtain a b where a: "a \<in> set (reps isdigit 8 (Some 8) r1)"
    and b: "b \<in> set (rems (Cls (\<lambda>x. x = 95)) a)"
    and c: "r2 \<in> set (reps isdigit 6 (Some 6) b)"
    by (auto simp: stamp_rx_def asc_def)
  from reps_split [OF a] obtain ds1 where d1: "r1 = ds1 @ a" "\<forall>c \<in> set ds1. isdigit c"
    "length ds1 = 8"
    by force
  from b have ab: "a = 95 # b" by (cases a) (auto split: if_splits)
  from reps_split [OF c] obtain ds2 where d2: "b = ds2 @ r2" "\<forall>c \<in> set ds2. isdigit c"
    "length ds2 = 6"
    by force
  show ?thesis using d1 d2 ab by (intro exI [of _ ds1] exI [of _ ds2]) simp
qed

lemma group_at_stamp:
  assumes "g \<in> set (group_at pre stamp_rx post s)"
  shows "\<exists>ds1 ds2. g = ds1 @ [95] @ ds2 \<and> length ds1 = 8 \<and> length ds2 = 6
           \<and> (\<forall>c \<in> set ds1. isdigit c) \<and> (\<forall>c \<in> set ds2. isdigit c)"
proof -
  from assms obtain r1 r2 where r: "r2 \<in> set (rems stamp_rx r1)"
    and g: "g = take (length r1 - length r2) r1"
    by (auto simp: group_at_def split: if_splits)
  from stamp_rx_split [OF r] obtain ds1 ds2 where
    d: "r1 = ds1 @ [95] @ ds2 @ r2" "length ds1 = 8" "length ds2 = 6"
      "\<forall>c \<in> set ds1. isdigit c" "\<forall>c \<in> set ds2. isdigit c"
    by blast
  have "g = ds1 @ [95] @ ds2" using d(1,2,3) by (simp add: g)
  then show ?thesis using d by blast
qed

lemma search_group_found:
  "search_group pre grp post s = Some g \<Longrightarrow> \<exists>t. g \<in> set (group_at pre grp post t)"
proof (induction s)
  case Nil
  then have "g \<in> set (group_at pre grp post [])"
    by (cases "group_at pre grp post []") auto
  then show ?case by (rule exI)
next
  case (Cons c cs)
  show ?case
  proof (cases "group_at pre grp post (c # cs)")
    case Nil
    then show ?thesis using Cons by simp
  next
    case (Cons g' gs)
    then have "g \<in> set (group_at pre grp post (c # cs))"
      using Cons.prems by simp
    then show ?thesis by (rule exI)
  qed
qed

lemma isdigit_ge: "isdigit c \<Longrightarrow> 48 \<le> c"
proof -
  assume "isdigit c"
  then obtain b where b: "b \<in> set digit_runs" "b \<le> c"
    by (auto simp: isdigit_def list_ex_iff)
  have "\<forall>b \<in> set digit_runs. 48 \<le> b" by (simp add: digit_runs_def)
  with b show ?thesis by force
qed

lemma str_less_pointwise: "list_all2 (\<lambda>x y. y \<le> x) xs ys \<Longrightarrow> \<not> str_less xs ys"
  by (induction rule: list_all2_induct) auto

lemma digits_ge_zeros:
  "\<forall>c \<in> set ds. isdigit c \<Longrightarrow> list_all2 (\<lambda>x y. y \<le> x) ds (replicate (length ds) 48)"
  by (induction ds) (auto simp: isdigit_ge)

lemma zero_stamp_replicate: "zero_stamp = replicate 8 48 @ [95] @ replicate 6 48"
  by (simp add: zero_stamp_def asc_def numeral_eq_Suc)

lemma extract_timestamp_least: "\<not> str_less (extract_timestamp p) zero_stamp"
proof (cases "search_group (lit results_prefix) stamp_rx (lit json_suffix) (basename p)")
  case None
  then show ?thesis by (simp add: extract_timestamp_def str_less_irrefl)
next
  case (Some g)
  from search_group_found [OF Some] group_at_stamp obtain ds1 ds2 where
    d: "g = ds1 @ [95] @ ds2" "length ds1 = 8" "length ds2 = 6"
      "\<forall>c \<in> set ds1. isdigit c" "\<forall>c \<in> set ds2. isdigit c"
    by blast
  have "list_all2 (\<lambda>x y. y \<le> x) (ds1 @ [95] @ ds2) (replicate 8 48 @ [95] @ replicate 6 48)"
    using digits_ge_zeros [OF d(4)] digits_ge_zeros [OF d(5)] d(2,3)
    by (intro list_all2_appendI) simp_all
  then have "\<not> str_less g zero_stamp"
    unfolding d(1) zero_stamp_replicate by (rule str_less_pointwise)
  then show ?thesis using Some by (simp add: extract_timestamp_def)
qed

text \<open>
  C8, as the code has it. The lookup returns nothing exactly when the directory is absent
  or has no entry matching the pattern. Otherwise it returns a matching entry whose
  timestamp no other matching entry exceeds in the order of strings. A name that holds no
  timestamp is given the timestamp of zeros, below which no timestamp of a name lies; such
  a file is not returned when some matching entry has a timestamp above the zeros.
\<close>

theorem find_latest_result_file_greatest:
  "(find_latest_result_file fs d = None) = (\<not> path_exists fs d \<or> glob_results fs d = [])
   \<and> (find_latest_result_file fs d = Some f \<longrightarrow>
        f \<in> set (glob_results fs d)
        \<and> (\<forall>g \<in> set (glob_results fs d).
              \<not> str_less (extract_timestamp f) (extract_timestamp g))
        \<and> ((\<exists>g \<in> set (glob_results fs d). str_less zero_stamp (extract_timestamp g))
             \<longrightarrow> has_timestamp f))
   \<and> (p \<in> set (glob_results fs d) \<longrightarrow>
        (\<exists>n. p = path_join d n \<and> matches_pattern n \<and> slash \<notin> set n \<and> map_of fs p \<noteq> None))
   \<and> (\<not> has_timestamp p \<longrightarrow> extract_timestamp p = zero_stamp)
   \<and> \<not> str_less (extract_timestamp p) zero_stamp"
proof -
  have sel: "has_timestamp f"
    if f: "find_latest_result_file fs d = Some f"
      and g: "\<exists>g \<in> set (glob_results fs d). str_less zero_stamp (extract_timestamp g)"
  proof (rule ccontr)
    assume "\<not> has_timestamp f"
    then have z: "extract_timestamp f = zero_stamp"
      by (simp add: has_timestamp_def extract_timestamp_def)
    from g obtain g' where "g' \<in> set (glob_results fs d)"
      "str_less zero_stamp (extract_timestamp g')" by blast
    with find_latest_greatest [OF f] z show False by auto
  qed
  have unparsed: "extract_timestamp p = zero_stamp" if "\<not> has_timestamp p"
    using that by (simp add: has_timestamp_def extract_timestamp_def)
  show ?thesis
    apply (intro conjI impI)
    subgoal by (rule find_latest_none)
    subgoal by (erule find_latest_mem)
    subgoal by (erule find_latest_greatest)
    subgoal by (rule sel)
    subgoal by (erule glob_results_shape)
    subgoal by (erule unparsed)
    subgoal by (rule extract_timestamp_least)
    done
qed


lemma glob_examples:
  "glob_results fs_mixed results_dir_ex = [stray_file, prior_file, later_file]"
  "glob_results fs_zero results_dir_ex = [stray_file, zero_file]"
  "glob_results fs_strays results_dir_ex = [stray_file, backup_file]"
  by (simp_all add: glob_results_def fs_mixed_def fs_zero_def fs_strays_def results_dir_ex_def
        stray_file_def prior_file_def later_file_def zero_file_def backup_file_def
        path_join_def matches_pattern_def results_prefix_def json_suffix_def ends_with_def
        slash_def asc_def)

lemma dir_examples:
  "path_exists fs_mixed results_dir_ex" "path_exists fs_zero results_dir_ex"
  "path_exists fs_strays results_dir_ex"
  by (simp_all add: path_exists_def fs_mixed_def fs_zero_def fs_strays_def)

lemma search_examples:
  "search_group (lit results_prefix) stamp_rx (lit json_suffix) (basename stray_file) = None"
  "search_group (lit results_prefix) stamp_rx (lit json_suffix) (basename backup_file) = None"
  "search_group (lit results_prefix) stamp_rx (lit json_suffix) (basename zero_file)
     = Some zero_stamp"
  "search_group (lit results_prefix) stamp_rx (lit json_suffix) (basename prior_file)
     = Some (asc ''20250101_000000'')"
  "search_group (lit results_prefix) stamp_rx (lit json_suffix) (basename later_file)
     = Some (asc ''20250102_000000'')"
  by (simp_all add: stray_file_def backup_file_def zero_file_def prior_file_def later_file_def
        basename_join asc_def slash_def results_prefix_def json_suffix_def stamp_rx_def
        group_at_def isdigit_low zero_stamp_def)

lemma stamp_order:
  "str_less zero_stamp (asc ''20250101_000000'')"
  "str_less (asc ''20250101_000000'') (asc ''20250102_000000'')"
  "str_less zero_stamp (asc ''20250102_000000'')"
  by (simp_all add: zero_stamp_def asc_def)

text \<open>
  C8 as stated fails: a file whose name holds no timestamp is returned although it is not
  the only candidate, when the other candidate is stamped with zeros, and when the other
  candidate holds no timestamp either; \<^verbatim>\<open>max\<close> keeps the first of equal elements.
\<close>

theorem unparsed_name_selected:
  "glob_results fs_zero results_dir_ex = [stray_file, zero_file]
   \<and> \<not> has_timestamp stray_file \<and> has_timestamp zero_file
   \<and> find_latest_result_file fs_zero results_dir_ex = Some stray_file
   \<and> glob_results fs_strays results_dir_ex = [stray_file, backup_file]
   \<and> \<not> has_timestamp backup_file
   \<and> find_latest_result_file fs_strays results_dir_ex = Some stray_file"
  by (simp add: glob_examples dir_examples has_timestamp_def search_examples
        find_latest_result_file_def extract_timestamp_def str_less_irrefl)

theorem find_latest_result_file_greatest_witness:
  "find_latest_result_file fs_mixed results_dir_ex = Some later_file
   \<and> later_file \<in> set (glob_results fs_mixed results_dir_ex)
   \<and> prior_file \<in> set (glob_results fs_mixed results_dir_ex)
   \<and> stray_file \<in> set (glob_results fs_mixed results_dir_ex)
   \<and> str_less zero_stamp (extract_timestamp prior_file)
   \<and> has_timestamp later_file
   \<and> \<not> str_less (extract_timestamp later_file) (extract_timestamp prior_file)
   \<and> \<not> has_timestamp stray_file
   \<and> extract_timestamp stray_file = zero_stamp
   \<and> map_of fs_mixed stray_file \<noteq> None"
proof -
  have h1: "find_latest_result_file fs_mixed results_dir_ex = Some later_file"
    by (simp add: glob_examples dir_examples search_examples stamp_order
          find_latest_result_file_def extract_timestamp_def str_less_irrefl)
  have h2: "prior_file \<in> set (glob_results fs_mixed results_dir_ex)"
    "stray_file \<in> set (glob_results fs_mixed results_dir_ex)"
    by (simp_all add: glob_examples)
  have h3: "str_less zero_stamp (extract_timestamp prior_file)"
    by (simp add: extract_timestamp_def search_examples stamp_order)
  have h4: "\<not> has_timestamp stray_file"
    by (simp add: has_timestamp_def search_examples)
  note t = find_latest_result_file_greatest [where fs = fs_mixed and d = results_dir_ex
      and f = later_file and p = stray_file]
  note g = mp [OF conjunct1 [OF conjunct2 [OF t]] h1]
  have c1: "later_file \<in> set (glob_results fs_mixed results_dir_ex)"
    by (rule g [THEN conjunct1])
  have c2: "\<not> str_less (extract_timestamp later_file) (extract_timestamp prior_file)"
    using g [THEN conjunct2, THEN conjunct1] h2(1) by blast
  have c3: "has_timestamp later_file"
    using g [THEN conjunct2, THEN conjunct2] h2(1) h3 by blast
  note r = conjunct2 [OF conjunct2 [OF t]]
  have c4: "map_of fs_mixed stray_file \<noteq> None"
    using mp [OF r [THEN conjunct1] h2(2)] by blast
  have c5: "extract_timestamp stray_file = zero_stamp"
    by (rule mp [OF r [THEN conjunct2, THEN conjunct1] h4])
  from h1 c1 h2 h3 c3 c2 h4 c5 c4 show ?thesis by (intro conjI)
qed

section \<open>Properties of the rows\<close>

lemma search_type_shape:
  assumes "search type_rx s = Some m"
  shows "layout_shape m"
proof -
  from assms search_group_found [of Eps type_rx Eps s m]
  obtain t where "m \<in> set (group_at Eps type_rx Eps t)"
    by (auto simp: search_def)
  then obtain r2 where r2: "r2 \<in> set (rems type_rx t)"
    and m: "m = take (length t - length r2) t"
    by (auto simp: group_at_def)
  from r2 obtain a where a: "a \<in> set (reps isdigit 1 None t)"
    and b: "r2 \<in> set (reps (\<lambda>c. c \<in> set (asc ''SLDK'')) 1 None a)"
    by (auto simp: type_rx_def rplus_def)
  from reps_split [OF a] obtain ds where ds: "t = ds @ a" "\<forall>c \<in> set ds. isdigit c"
    "1 \<le> length ds"
    by blast
  from reps_split [OF b] obtain ls where ls: "a = ls @ r2"
    "\<forall>c \<in> set ls. c \<in> set (asc ''SLDK'')" "1 \<le> length ls"
    by blast
  have "m = ds @ ls" using ds(1) ls(1) by (simp add: m)
  moreover have "ds \<noteq> []" "ls \<noteq> []" using ds(3) ls(3) by auto
  ultimately show ?thesis using ds(2) ls(2) by (auto simp: layout_shape_def)
qed

lemma pick_type_shape: "pick_type q sels = Some m \<Longrightarrow> layout_shape m"
proof (induction sels)
  case Nil
  then show ?case by simp
next
  case (Cons s sels)
  then show ?case
    by (auto split: sum.splits option.splits if_splits dest: search_type_shape)
qed

lemma layout_shape_nonempty: "layout_shape m \<Longrightarrow> m \<noteq> []"
  by (auto simp: layout_shape_def)

lemma not_digit_unknown: "\<not> isdigit 19981"
  by (simp add: isdigit_def digit_runs_def)

lemma layout_shape_not_unknown: "layout_shape m \<Longrightarrow> m \<noteq> unknown"
proof
  assume s: "layout_shape m" and u: "m = unknown"
  from s obtain ds ls where d: "m = ds @ ls" "ds \<noteq> []" "\<forall>c \<in> set ds. isdigit c"
    by (auto simp: layout_shape_def)
  then obtain c cs where "ds = c # cs" by (cases ds) auto
  with d u have "isdigit 19981" by (auto simp: unknown_def)
  with not_digit_unknown show False by simp
qed

lemma room_type_of_shape:
  assumes "room_type_of rw = Some m"
  shows "layout_shape m"
proof (cases "pick_type (row_query rw) type_selectors")
  case None
  with assms show ?thesis
    by (auto simp: room_type_of_def from_row_text_def split: sum.splits if_splits option.splits
          dest: search_type_shape)
next
  case (Some v)
  then have sh: "layout_shape v" by (rule pick_type_shape)
  then have "v \<noteq> []" by (rule layout_shape_nonempty)
  with assms Some have "m = v" by (simp add: room_type_of_def from_row_text_def)
  with sh show ?thesis by simp
qed

lemma extract_room_some:
  assumes "extract_room rw = Some rm"
  shows "room_type_of rw = Some (rtype rm) \<and> rent_of rw = Some (rent rm)
     \<and> rtype rm \<noteq> [] \<and> rent rm \<noteq> []"
proof -
  from assms have t: "truthy (room_type_of rw)" and r: "truthy (rent_of rw)"
    and rm: "rm = \<lparr>rtype = or_unknown (room_type_of rw), rent = or_unknown (rent_of rw),
                    area = or_unknown (area_of rw), floor = or_unknown (floor_of rw)\<rparr>"
    by (auto simp: extract_room_def Let_def split: if_splits)
  from t obtain a where a: "room_type_of rw = Some a" "a \<noteq> []"
    by (cases "room_type_of rw") auto
  from r obtain b where b: "rent_of rw = Some b" "b \<noteq> []"
    by (cases "rent_of rw") auto
  show ?thesis using a b by (simp add: rm or_unknown_def)
qed

lemma extract_room_none:
  "(extract_room rw = None) = (\<not> truthy (room_type_of rw) \<or> \<not> truthy (rent_of rw))"
  by (auto simp: extract_room_def Let_def)

lemma extract_rooms_mem:
  "rm \<in> set (extract_rooms rws) \<Longrightarrow> \<exists>rw \<in> set rws. extract_room rw = Some rm"
  by (induction rws) (auto split: option.splits)

lemma vacant_rooms_extracted:
  "rm \<in> set (vacant_rooms (extract_property_info pg u pre))
   \<Longrightarrow> \<exists>rw. extract_room rw = Some rm"
  by (auto simp: extract_property_info_def split: sum.splits dest: extract_rooms_mem)

text \<open>
  What the guard before the append gives for every row: a room is appended exactly when
  the layout and the rent read from the row are both non-empty, and it carries these two
  texts. The loop for the layout assigns only a match of its pattern, so the layout of a
  room is digits followed by letters and is never the sentinel.
\<close>

lemma unit_record_needs_layout_and_rent:
  "(extract_room rw = Some rm \<longrightarrow>
      room_type_of rw = Some (rtype rm) \<and> rent_of rw = Some (rent rm)
      \<and> rtype rm \<noteq> [] \<and> rent rm \<noteq> [] \<and> layout_shape (rtype rm) \<and> rtype rm \<noteq> unknown)
   \<and> (extract_room rw = None) = (\<not> truthy (room_type_of rw) \<or> \<not> truthy (rent_of rw))
   \<and> (\<forall>r \<in> set (extract_rooms rws). \<exists>w \<in> set rws. extract_room w = Some r)
   \<and> (\<forall>r \<in> set (vacant_rooms (extract_property_info pg u pre)).
         rtype r \<noteq> [] \<and> rent r \<noteq> [] \<and> layout_shape (rtype r) \<and> rtype r \<noteq> unknown)"
proof -
  have one: "room_type_of w = Some (rtype r) \<and> rent_of w = Some (rent r)
      \<and> rtype r \<noteq> [] \<and> rent r \<noteq> [] \<and> layout_shape (rtype r) \<and> rtype r \<noteq> unknown"
    if "extract_room w = Some r" for w r
  proof -
    note e = extract_room_some [OF that]
    from e have "layout_shape (rtype r)" by (intro room_type_of_shape [of w]) simp
    then show ?thesis using e layout_shape_not_unknown by blast
  qed
  have many: "\<forall>r \<in> set (extract_rooms rws). \<exists>w \<in> set rws. extract_room w = Some r"
    using extract_rooms_mem by blast
  have all: "\<forall>r \<in> set (vacant_rooms (extract_property_info pg u pre)).
         rtype r \<noteq> [] \<and> rent r \<noteq> [] \<and> layout_shape (rtype r) \<and> rtype r \<noteq> unknown"
  proof
    fix r assume "r \<in> set (vacant_rooms (extract_property_info pg u pre))"
    then obtain w where "extract_room w = Some r"
      using vacant_rooms_extracted by blast
    from one [OF this] show "rtype r \<noteq> [] \<and> rent r \<noteq> [] \<and> layout_shape (rtype r)
        \<and> rtype r \<noteq> unknown"
      by simp
  qed
  show ?thesis
    apply (intro conjI impI)
    subgoal using one by blast
    subgoal using one by blast
    subgoal using one by blast
    subgoal using one by blast
    subgoal using one by blast
    subgoal using one by blast
    subgoal by (rule extract_room_none)
    subgoal by (rule many)
    subgoal by (rule all)
    done
qed


text \<open>The evaluation of the patterns on the example rows.\<close>

lemma isdigit_cjk: "7258 \<le> c \<Longrightarrow> c < 42528 \<Longrightarrow> isdigit c = False"
  by (auto simp: isdigit_def digit_runs_def)

lemmas rx_eval = found_def search_def group_at_def price_rx_def price_yen_rx_def room_no_rx_def
  ldk_rx_def type_rx_def area_rx_def floor_rx_def floor_full_rx_def one_of_def rplus_def
  rstar_def ropt_def isdigit_low isdigit_cjk

lemmas text_eval = asc_def unknown_def room_101_def yen_85000_def strip_def isspace_def
  slash_def cell_def

lemma shifted_fields:
  "rent_of shifted_row = Some unknown"
  "room_type_of shifted_row = Some (asc ''2LDK'')"
  "area_of shifted_row = Some yen_85000"
  "floor_of shifted_row = Some yen_85000"
  "has_detail_button shifted_row = False"
  by (simp_all add: rent_of_def room_type_of_def area_of_def floor_of_def has_detail_button_def
        from_row_text_def shifted_row_def price_selectors_def type_selectors_def
        area_selectors_def floor_selectors_def rx_eval text_eval)

lemma shifted_keep: "row_keep shifted_row"
  by (simp add: row_keep_def shifted_row_def header_labels_def rx_eval text_eval)

lemma shifted_extract: "extract_room shifted_row = Some shifted_room"
  by (simp add: extract_room_def shifted_fields shifted_room_def or_unknown_def Let_def)
     (simp add: text_eval)

text \<open>
  C5. A room is to be emitted only when its layout and its rent were both extracted, and
  never with the sentinel as layout or rent. The code breaks this for the rent. The loop
  over the price cells assigns the text of each cell before it checks the shape of a
  price, so after the loop the variable may hold a text that failed the check; the search
  of the price in the text of the row, meant for a price that was not found, is then
  skipped because the variable is not empty. In \<open>shifted_row\<close> the price is in the
  fifth cell and the fourth cell shows the text of the sentinel: that text fails the
  check of the loop, the search in the row would have given the price, and the room is
  emitted with the sentinel as its rent. The loop for the layout, which assigns only on a
  match, has no such case.
\<close>

theorem sentinel_rent_emitted:
  "row_keep shifted_row
   \<and> extract_room shifted_row = Some shifted_room
   \<and> rent shifted_room = unknown
   \<and> vacant_rooms (extract_property_info shifted_page url_a None) = [shifted_room]
   \<and> \<not> found price_rx unknown
   \<and> from_row_text price_yen_rx shifted_row None = Some yen_85000"
proof -
  have rows: "find_room_rows shifted_page room_table_selectors = [shifted_row]"
    using shifted_keep
    by (simp add: room_table_selectors_def shifted_page_def asc_def)
  have name: "extract_name shifted_page None = Inr unknown_property"
    by (simp add: extract_name_def name_from_selectors_def shifted_page_def info_get_def)
  have ttl: "result_title shifted_page None n = Inr (asc ''Danchi'')" for n
    by (simp add: result_title_def shifted_page_def)
  have rooms: "vacant_rooms (extract_property_info shifted_page url_a None) = [shifted_room]"
    by (simp add: extract_property_info_def name rows shifted_extract ttl)
  have rent: "rent shifted_room = unknown"
    by (simp add: shifted_room_def)
  have shape: "\<not> found price_rx unknown"
    by (simp add: rx_eval text_eval)
  have row: "from_row_text price_yen_rx shifted_row None = Some yen_85000"
    by (simp add: from_row_text_def shifted_row_def rx_eval text_eval)
  from shifted_keep shifted_extract rent rooms shape row show ?thesis
    by (intro conjI)
qed

theorem sentinel_rent_emitted_witness:
  "map rent (vacant_rooms (extract_property_info shifted_page url_a None)) = [unknown]
   \<and> from_row_text price_yen_rx shifted_row None = Some yen_85000"
  using sentinel_rent_emitted by simp

text \<open>A row with the columns the program expects, and a row without a price.\<close>

lemma plain_fields:
  "rent_of plain_row = Some yen_85000"
  "room_type_of plain_row = Some (asc ''2LDK'')"
  "area_of plain_row = Some (asc ''50'' @ [13217])"
  "floor_of plain_row = Some (asc ''3'' @ [38542])"
  by (simp_all add: rent_of_def room_type_of_def area_of_def floor_of_def
        from_row_text_def plain_row_def price_selectors_def type_selectors_def
        area_selectors_def floor_selectors_def rx_eval text_eval)

lemma plain_keep: "row_keep plain_row" "\<not> row_keep partial_row"
  by (simp_all add: row_keep_def plain_row_def partial_row_def header_labels_def rx_eval
        text_eval)

lemma plain_extract: "extract_room plain_row = Some plain_room"
  by (simp add: extract_room_def plain_fields plain_room_def or_unknown_def Let_def)
     (simp add: text_eval)

lemma partial_fields:
  "room_type_of partial_row = Some (asc ''2LDK'')" "rent_of partial_row = None"
  by (simp_all add: rent_of_def room_type_of_def from_row_text_def partial_row_def
        price_selectors_def type_selectors_def rx_eval text_eval)

lemma unit_record_on_plain_rows:
  "extract_room plain_row = Some plain_room
   \<and> room_type_of plain_row = Some (rtype plain_room)
   \<and> rent_of plain_row = Some (rent plain_room)
   \<and> layout_shape (rtype plain_room) \<and> rtype plain_room \<noteq> unknown
   \<and> rent plain_room \<noteq> []
   \<and> truthy (room_type_of partial_row) \<and> \<not> truthy (rent_of partial_row)
   \<and> extract_room partial_row = None
   \<and> vacant_rooms (extract_property_info listing_page url_a None) = [plain_room]"
proof -
  have h1: "extract_room plain_row = Some plain_room" by (rule plain_extract)
  have h2: "truthy (room_type_of partial_row)" "\<not> truthy (rent_of partial_row)"
    by (simp_all add: partial_fields asc_def)
  have h3: "vacant_rooms (extract_property_info listing_page url_a None) = [plain_room]"
  proof -
    have rows: "find_room_rows listing_page room_table_selectors = [plain_row]"
      using plain_keep by (simp add: room_table_selectors_def listing_page_def asc_def)
    have name: "extract_name listing_page None = Inr unknown_property"
      by (simp add: extract_name_def name_from_selectors_def listing_page_def info_get_def)
    have ttl: "result_title listing_page None n = Inr (asc ''Danchi'')" for n
      by (simp add: result_title_def listing_page_def)
    show ?thesis
      by (simp add: extract_property_info_def name rows plain_extract ttl)
  qed
  note t = unit_record_needs_layout_and_rent [where rw = plain_row and rm = plain_room
      and rws = "[partial_row, plain_row]" and pg = listing_page and u = url_a and pre = None]
  note g = mp [OF conjunct1 [OF t] h1]
  note t2 = unit_record_needs_layout_and_rent [where rw = partial_row and rm = plain_room
      and rws = "[partial_row, plain_row]" and pg = listing_page and u = url_a and pre = None]
  have c: "extract_room partial_row = None"
    using t2 [THEN conjunct2, THEN conjunct1] h2 by simp
  from h1 g h2 c h3 show ?thesis by simp
qed

end
